theory Spec2Isabelle
  imports Main
begin

section \<open>Python strings\<close>

text \<open>
  Strings are \<^typ>\<open>string\<close>. The case conversions and the white-space test cover ASCII;
  every other character is left unchanged by the case conversions and is not white
  space, so the model speaks about ASCII file and directory names.
\<close>

definition to_upper :: "char \<Rightarrow> char" where
  "to_upper c =
     (case map_of (zip ''abcdefghijklmnopqrstuvwxyz'' ''ABCDEFGHIJKLMNOPQRSTUVWXYZ'') c of
        Some u \<Rightarrow> u | None \<Rightarrow> c)"

definition to_lower :: "char \<Rightarrow> char" where
  "to_lower c =
     (case map_of (zip ''ABCDEFGHIJKLMNOPQRSTUVWXYZ'' ''abcdefghijklmnopqrstuvwxyz'') c of
        Some l \<Rightarrow> l | None \<Rightarrow> c)"

definition is_space :: "char \<Rightarrow> bool" where
  \<comment> \<open>the ASCII characters for which \<^verbatim>\<open>str.isspace\<close> holds: tab, line feed, vertical tab,
      form feed, carriage return, the four separators 0x1c to 0x1f, and the blank\<close>
  "is_space c \<longleftrightarrow>
     c \<in> set [CHR 0x09, CHR 0x0A, CHR 0x0B, CHR 0x0C, CHR 0x0D,
               CHR 0x1C, CHR 0x1D, CHR 0x1E, CHR 0x1F, CHR '' '']"

definition lower :: "string \<Rightarrow> string" where
  \<comment> \<open>\<^verbatim>\<open>str.lower\<close>\<close>
  "lower s = map to_lower s"

fun capitalize :: "string \<Rightarrow> string" where
  \<comment> \<open>\<^verbatim>\<open>str.capitalize\<close>: first character upper case, the rest lower case\<close>
  "capitalize [] = []"
| "capitalize (c # cs) = to_upper c # map to_lower cs"

definition replace_char :: "char \<Rightarrow> char \<Rightarrow> string \<Rightarrow> string" where
  \<comment> \<open>\<^verbatim>\<open>s.replace(a, b)\<close> for one-character \<open>a\<close> and \<open>b\<close>\<close>
  "replace_char a b s = map (\<lambda>c. if c = a then b else c) s"

fun split_ws :: "string \<Rightarrow> string \<Rightarrow> string list" where
  \<comment> \<open>\<^verbatim>\<open>s.split()\<close>: the maximal runs of characters that are not white space; the first
      argument is the run being read\<close>
  "split_ws cur [] = (if cur = [] then [] else [cur])"
| "split_ws cur (c # cs) =
     (if is_space c then (if cur = [] then split_ws [] cs else cur # split_ws [] cs)
      else split_ws (cur @ [c]) cs)"

definition split :: "string \<Rightarrow> string list" where
  "split s = split_ws [] s"

fun join :: "string \<Rightarrow> string list \<Rightarrow> string" where
  \<comment> \<open>\<^verbatim>\<open>sep.join(xs)\<close>\<close>
  "join sep [] = []"
| "join sep [x] = x"
| "join sep (x # y # ys) = x @ sep @ join sep (y # ys)"

definition startswith :: "string \<Rightarrow> string \<Rightarrow> bool" where
  \<comment> \<open>\<^verbatim>\<open>s.startswith(p)\<close>\<close>
  "startswith s p \<longleftrightarrow> take (length p) s = p"

definition rfind :: "char \<Rightarrow> string \<Rightarrow> nat option" where
  \<comment> \<open>\<^verbatim>\<open>s.rfind(c)\<close>; \<open>None\<close> stands for Python's -1\<close>
  "rfind c s =
     (if c \<in> set s then Some (length s - 1 - length (takeWhile (\<lambda>d. d \<noteq> c) (rev s)))
      else None)"

definition os_sep :: string where
  "os_sep = ''/''"

definition basename :: "string \<Rightarrow> string" where
  \<comment> \<open>\<^verbatim>\<open>os.path.basename\<close>: what follows the last separator\<close>
  "basename p = rev (takeWhile (\<lambda>c. c \<noteq> CHR ''/'') (rev p))"

section \<open>sync\_knowledge.py: prettify\_name\<close>

definition prettify_name :: "string \<Rightarrow> string" where
  "prettify_name name =
     (let name1 = replace_char (CHR ''_'') (CHR '' '') (replace_char (CHR ''-'') (CHR '' '') name)
      in join '' '' (map capitalize (split name1)))"

section \<open>utils/file\_utils.py\<close>

datatype exn =
    KeyError | TypeError | AttributeError | ValueError | OSError | RequestException

definition SUPPORTED_EXTENSIONS :: "string list" where
  "SUPPORTED_EXTENSIONS =
     [''.txt'', ''.md'', ''.markdown'', ''.rst'', ''.rtf'',
      ''.pdf'', ''.doc'', ''.docx'', ''.ppt'', ''.pptx'', ''.xls'', ''.xlsx'',
      ''.py'', ''.js'', ''.java'', ''.c'', ''.cpp'', ''.h'', ''.hpp'', ''.cs'', ''.php'',
      ''.rb'', ''.go'', ''.html'', ''.htm'', ''.css'', ''.xml'', ''.json'', ''.yaml'', ''.yml'',
      ''.csv'', ''.tsv'']"

definition suffix :: "string \<Rightarrow> string" where
  \<comment> \<open>\<^verbatim>\<open>PurePath.suffix\<close> of a path whose final component is \<open>name\<close>: from the last dot
      on, when that dot is neither the first nor the last character\<close>
  "suffix name =
     (case rfind (CHR ''.'') name of
        None \<Rightarrow> []
      | Some i \<Rightarrow> if 0 < i \<and> i + 1 < length name then drop i name else [])"

definition is_supported_file :: "string \<Rightarrow> nat option \<Rightarrow> exn + bool" where
  \<comment> \<open>\<open>name\<close> is \<^verbatim>\<open>file_path.name\<close>; \<open>st\<close> is what \<^verbatim>\<open>file_path.stat()\<close> gives:
      \<open>Some\<close> of \<^verbatim>\<open>st_size\<close>, or \<open>None\<close> when the call raises \<^verbatim>\<open>OSError\<close>\<close>
  "is_supported_file name st =
     (if startswith name ''.'' then Inr False
      else if lower (suffix name) \<notin> set SUPPORTED_EXTENSIONS then Inr False
      else case st of
             None \<Rightarrow> Inl OSError
           | Some st_size \<Rightarrow> if st_size = 0 then Inr False else Inr True)"

section \<open>Python values\<close>

text \<open>
  What \<^verbatim>\<open>response.json()\<close> and \<^verbatim>\<open>json.load\<close> return. Numbers are integers here. An
  object is the list of its items in order; \<open>map_of\<close> reads a key.
\<close>

datatype json =
    JNull | JBool bool | JNum int | JStr string | JArr "json list" | JObj "(string \<times> json) list"

type_synonym dict = "(string \<times> json) list"

fun truthy :: "json \<Rightarrow> bool" where
  "truthy JNull = False"
| "truthy (JBool b) = b"
| "truthy (JNum n) = (n \<noteq> 0)"
| "truthy (JStr s) = (s \<noteq> [])"
| "truthy (JArr xs) = (xs \<noteq> [])"
| "truthy (JObj kvs) = (kvs \<noteq> [])"

fun hashable :: "json \<Rightarrow> bool" where
  \<comment> \<open>lists and dicts cannot be dict keys or set members: \<^verbatim>\<open>TypeError\<close>\<close>
  "hashable (JArr xs) = False"
| "hashable (JObj kvs) = False"
| "hashable v = True"

fun contains_str :: "string \<Rightarrow> string \<Rightarrow> bool" where
  \<comment> \<open>\<^verbatim>\<open>p in s\<close> for two strings\<close>
  "contains_str p [] = (p = [])"
| "contains_str p (c # cs) = (startswith (c # cs) p \<or> contains_str p cs)"

fun py_in :: "string \<Rightarrow> json \<Rightarrow> exn + bool" where
  \<comment> \<open>\<^verbatim>\<open>k in x\<close> for a string \<open>k\<close>\<close>
  "py_in k (JObj kvs) = Inr (k \<in> fst ` set kvs)"
| "py_in k (JArr xs) = Inr (JStr k \<in> set xs)"
| "py_in k (JStr s) = Inr (contains_str k s)"
| "py_in k v = Inl TypeError"

fun py_getitem :: "json \<Rightarrow> string \<Rightarrow> exn + json" where
  \<comment> \<open>\<^verbatim>\<open>x[k]\<close> for a string \<open>k\<close>\<close>
  "py_getitem (JObj kvs) k = (case map_of kvs k of None \<Rightarrow> Inl KeyError | Some v \<Rightarrow> Inr v)"
| "py_getitem v k = Inl TypeError"

fun py_iter :: "json \<Rightarrow> exn + json list" where
  \<comment> \<open>the values that \<^verbatim>\<open>for v in x\<close> runs through; \<^verbatim>\<open>len(x)\<close> raises on the same \<open>x\<close>\<close>
  "py_iter (JArr xs) = Inr xs"
| "py_iter (JObj kvs) = Inr (map (\<lambda>kv. JStr (fst kv)) kvs)"
| "py_iter (JStr s) = Inr (map (\<lambda>c. JStr [c]) s)"
| "py_iter v = Inl TypeError"

fun dict_set :: "('k \<times> 'v) list \<Rightarrow> 'k \<Rightarrow> 'v \<Rightarrow> ('k \<times> 'v) list" where
  \<comment> \<open>\<^verbatim>\<open>d[k] = v\<close> on a dict kept in insertion order\<close>
  "dict_set [] k v = [(k, v)]"
| "dict_set ((k', v') # d) k v =
     (if k' = k then (k', v) # d else (k', v') # dict_set d k v)"

section \<open>owui\_api.py: the client\<close>

text \<open>
  \<^verbatim>\<open>_make_request\<close> is the boundary of the model: the transport \<open>tr\<close> answers a request in
  a state of the outside world with a response, or with \<open>None\<close> when
  \<^verbatim>\<open>requests.exceptions.RequestException\<close> is raised, and a new state. The URL is kept as
  the endpoint and the values formatted into it. Every request made is appended to the
  log.
\<close>

datatype http_method = GET | POST | DELETE

datatype endpoint =
    Knowledge                   \<comment> \<open>\<^verbatim>\<open>/api/knowledge\<close>\<close>
  | KnowledgeId json            \<comment> \<open>\<^verbatim>\<open>/api/knowledge/{collection_id}\<close>\<close>
  | Files                       \<comment> \<open>\<^verbatim>\<open>/api/files\<close>\<close>
  | FilesUpload                 \<comment> \<open>\<^verbatim>\<open>/api/files/upload\<close>\<close>
  | KnowledgeFiles json         \<comment> \<open>\<^verbatim>\<open>/api/knowledge/{collection_id}/files\<close>\<close>

datatype payload =
    NoBody
  | JsonBody json
  | Multipart string string     \<comment> \<open>the multipart file: its basename and the path opened\<close>

type_synonym request = "http_method \<times> endpoint \<times> payload"

record response =
  status_code :: nat
  body :: "json option"         \<comment> \<open>\<open>None\<close>: the body is not JSON\<close>

type_synonym 's transport = "request \<Rightarrow> 's \<Rightarrow> response option \<times> 's"

record 's world =
  log :: "request list"
  remote :: 's

record os_env =
  isfile :: "string \<Rightarrow> bool"    \<comment> \<open>\<^verbatim>\<open>os.path.isfile\<close>\<close>
  can_open :: "string \<Rightarrow> bool"  \<comment> \<open>\<^verbatim>\<open>open(path, 'rb')\<close> succeeds\<close>

definition make_request :: "'s transport \<Rightarrow> request \<Rightarrow> 's world \<Rightarrow> response option \<times> 's world" where
  "make_request tr req w =
     (case tr req (remote w) of
        (r, s') \<Rightarrow> (r, \<lparr>log = log w @ [req], remote = s'\<rparr>))"

definition raise_for_status :: "response \<Rightarrow> bool" where
  \<comment> \<open>true when \<^verbatim>\<open>response.raise_for_status()\<close> raises \<^verbatim>\<open>HTTPError\<close>\<close>
  "raise_for_status r \<longleftrightarrow> 400 \<le> status_code r \<and> status_code r < 600"

definition json_or_empty :: "response option \<Rightarrow> json" where
  \<comment> \<open>the shared tail of the methods that return the parsed body, and \<^verbatim>\<open>{}\<close> on any failure\<close>
  "json_or_empty ro =
     (case ro of
        None \<Rightarrow> JObj []
      | Some r \<Rightarrow> if raise_for_status r then JObj []
                  else (case body r of None \<Rightarrow> JObj [] | Some v \<Rightarrow> v))"

definition list_or_empty :: "response option \<Rightarrow> json" where
  \<comment> \<open>the shared tail of the two listing methods\<close>
  "list_or_empty ro =
     (case ro of
        None \<Rightarrow> JArr []
      | Some r \<Rightarrow> if raise_for_status r then JArr []
                  else (case body r of
                          None \<Rightarrow> JArr []
                        | Some (JArr xs) \<Rightarrow> JArr xs
                        | Some (JObj kvs) \<Rightarrow>
                            (case map_of kvs ''data'' of Some d \<Rightarrow> d | None \<Rightarrow> JArr [])
                        | Some v \<Rightarrow> JArr []))"

definition get_knowledge_collections :: "'s transport \<Rightarrow> 's world \<Rightarrow> json \<times> 's world" where
  "get_knowledge_collections tr w =
     (case make_request tr (GET, Knowledge, NoBody) w of (ro, w') \<Rightarrow> (list_or_empty ro, w'))"

definition get_knowledge_collection :: "'s transport \<Rightarrow> json \<Rightarrow> 's world \<Rightarrow> json \<times> 's world" where
  "get_knowledge_collection tr collection_id w =
     (case make_request tr (GET, KnowledgeId collection_id, NoBody) w of
        (ro, w') \<Rightarrow> (json_or_empty ro, w'))"

definition create_knowledge_collection ::
  "'s transport \<Rightarrow> string \<Rightarrow> string \<Rightarrow> 's world \<Rightarrow> json \<times> 's world" where
  "create_knowledge_collection tr name description w =
     (case make_request tr
             (POST, Knowledge,
              JsonBody (JObj [(''name'', JStr name), (''description'', JStr description)])) w of
        (ro, w') \<Rightarrow> (json_or_empty ro, w'))"

definition get_files :: "'s transport \<Rightarrow> 's world \<Rightarrow> json \<times> 's world" where
  "get_files tr w =
     (case make_request tr (GET, Files, NoBody) w of (ro, w') \<Rightarrow> (list_or_empty ro, w'))"

definition upload_file :: "'s transport \<Rightarrow> os_env \<Rightarrow> string \<Rightarrow> 's world \<Rightarrow> json \<times> 's world" where
  "upload_file tr env file_path w =
     (if \<not> can_open env file_path then (JObj [], w)
      else case make_request tr (POST, FilesUpload, Multipart (basename file_path) file_path) w of
             (ro, w') \<Rightarrow> (json_or_empty ro, w'))"

definition attach :: "'s transport \<Rightarrow> json \<Rightarrow> json \<Rightarrow> 's world \<Rightarrow> (exn + bool) \<times> 's world" where
  \<comment> \<open>the second half of \<^verbatim>\<open>add_file_to_knowledge\<close>: the POST of the file id\<close>
  "attach tr collection_id file_id w =
     (case make_request tr
             (POST, KnowledgeFiles collection_id, JsonBody (JObj [(''file_id'', file_id)])) w of
        (None, w') \<Rightarrow> (Inr False, w')
      | (Some r, w') \<Rightarrow> (Inr (\<not> raise_for_status r), w'))"

definition is_local_file :: "os_env \<Rightarrow> json \<Rightarrow> bool" where
  \<comment> \<open>\<^verbatim>\<open>isinstance(file_id_or_path, str) and os.path.isfile(file_id_or_path)\<close>\<close>
  "is_local_file env x = (case x of JStr p \<Rightarrow> isfile env p | _ \<Rightarrow> False)"

definition path_of :: "json \<Rightarrow> string" where
  "path_of x = (case x of JStr p \<Rightarrow> p | _ \<Rightarrow> [])"

definition add_file_to_knowledge ::
  "'s transport \<Rightarrow> os_env \<Rightarrow> json \<Rightarrow> json \<Rightarrow> 's world \<Rightarrow> (exn + bool) \<times> 's world" where
  "add_file_to_knowledge tr env collection_id file_id_or_path w =
     (if is_local_file env file_id_or_path then
        (case upload_file tr env (path_of file_id_or_path) w of
           (file_data, w1) \<Rightarrow>
             if \<not> truthy file_data then (Inr False, w1)
             else (case py_in ''id'' file_data of
                     Inl e \<Rightarrow> (Inl e, w1)
                   | Inr False \<Rightarrow> (Inr False, w1)
                   | Inr True \<Rightarrow>
                       (case py_getitem file_data ''id'' of
                          Inl e \<Rightarrow> (Inl e, w1)
                        | Inr file_id \<Rightarrow> attach tr collection_id file_id w1)))
      else attach tr collection_id file_id_or_path w)"

section \<open>The local file tree\<close>

text \<open>
  A file carries what \<^verbatim>\<open>stat\<close> reports (its size, or \<open>None\<close> when the call raises
  \<^verbatim>\<open>OSError\<close>) and its content (\<open>None\<close> when it cannot be opened). A directory carries
  whether it can be listed, and its entries in the order \<^verbatim>\<open>scandir\<close> gives them. Symbolic
  links are not modelled. The tree does not change during a run.
\<close>

datatype fsnode =
    File "nat option" "string option"
  | Dir bool "(string \<times> fsnode) list"

fun is_dir :: "fsnode \<Rightarrow> bool" where
  "is_dir (Dir listable entries) = True"
| "is_dir (File st content) = False"

fun files_in :: "(string \<times> fsnode) list \<Rightarrow> (string \<times> nat option \<times> string option) list" where
  \<comment> \<open>the entries that are not directories: the \<^verbatim>\<open>filenames\<close> of \<^verbatim>\<open>os.walk\<close>\<close>
  "files_in [] = []"
| "files_in ((n, File st content) # es) = (n, st, content) # files_in es"
| "files_in ((n, Dir listable entries) # es) = files_in es"

fun os_walk :: "string list \<Rightarrow> fsnode \<Rightarrow> (string list \<times> (string \<times> nat option \<times> string option) list) list"
  where
  \<comment> \<open>\<^verbatim>\<open>os.walk(directory)\<close>, top down and with no \<^verbatim>\<open>onerror\<close>: an error from
      \<^verbatim>\<open>scandir\<close> is ignored and the directory yields nothing. \<open>root\<close> is the walked
      directory's path relative to the top, as its components.\<close>
  "os_walk root (File st content) = []"
| "os_walk root (Dir listable entries) =
     (if \<not> listable then []
      else (root, files_in entries)
           # concat (map (\<lambda>(n, e). if is_dir e then os_walk (root @ [n]) e else []) entries))"

record local_file =
  path :: string
  hash :: string

type_synonym local_files = "(string \<times> local_file) list"

definition get_file_hash :: "(string \<Rightarrow> string) \<Rightarrow> string option \<Rightarrow> exn + string" where
  \<comment> \<open>\<open>sha256\<close> is the hex digest of a content; reading in chunks of 4096 bytes gives the
      digest of the whole content\<close>
  "get_file_hash sha256 content =
     (case content of None \<Rightarrow> Inl OSError | Some bytes \<Rightarrow> Inr (sha256 bytes))"

section \<open>sync\_knowledge.py: the scanner\<close>

fun scan_filenames ::
  "(string \<Rightarrow> string) \<Rightarrow> string \<Rightarrow> string list \<Rightarrow> (string \<times> nat option \<times> string option) list
     \<Rightarrow> local_files \<Rightarrow> exn + local_files" where
  \<comment> \<open>the inner loop of \<^verbatim>\<open>get_local_files\<close>, over the file names of one directory\<close>
  "scan_filenames sha256 directory root [] files = Inr files"
| "scan_filenames sha256 directory root ((filename, st, content) # rest) files =
     (let rel_path = join os_sep (root @ [filename]);
          file_path = directory @ os_sep @ rel_path
      in case is_supported_file filename st of
           Inl e \<Rightarrow> Inl e
         | Inr False \<Rightarrow> scan_filenames sha256 directory root rest files
         | Inr True \<Rightarrow>
             (case get_file_hash sha256 content of
                Inl e \<Rightarrow> Inl e
              | Inr h \<Rightarrow>
                  scan_filenames sha256 directory root rest
                    (dict_set files rel_path \<lparr>path = file_path, hash = h\<rparr>)))"

fun scan_walk ::
  "(string \<Rightarrow> string) \<Rightarrow> string
     \<Rightarrow> (string list \<times> (string \<times> nat option \<times> string option) list) list
     \<Rightarrow> local_files \<Rightarrow> exn + local_files" where
  \<comment> \<open>the outer loop of \<^verbatim>\<open>get_local_files\<close>, over what \<^verbatim>\<open>os.walk\<close> yields\<close>
  "scan_walk sha256 directory [] files = Inr files"
| "scan_walk sha256 directory ((root, filenames) # rest) files =
     (case scan_filenames sha256 directory root filenames files of
        Inl e \<Rightarrow> Inl e
      | Inr files' \<Rightarrow> scan_walk sha256 directory rest files')"

definition get_local_files :: "(string \<Rightarrow> string) \<Rightarrow> string \<Rightarrow> fsnode \<Rightarrow> exn + local_files" where
  \<comment> \<open>\<open>directory\<close> is the path of the scan root as a string, \<open>tree\<close> what is found there\<close>
  "get_local_files sha256 directory tree = scan_walk sha256 directory (os_walk [] tree) []"

section \<open>sync\_knowledge.py: the remote snapshots\<close>

type_synonym remote_files = "(json \<times> dict) list"
type_synonym remote_collections = "(json \<times> json) list"

fun index_files :: "json list \<Rightarrow> remote_files \<Rightarrow> exn + remote_files" where
  \<comment> \<open>the loop of \<^verbatim>\<open>get_remote_files\<close>; \<^verbatim>\<open>file.get\<close> exists on a dict only\<close>
  "index_files [] file_dict = Inr file_dict"
| "index_files (JObj file # rest) file_dict =
     (case map_of file ''id'' of
        None \<Rightarrow> index_files rest file_dict
      | Some file_id \<Rightarrow>
          if \<not> truthy file_id then index_files rest file_dict
          else if \<not> hashable file_id then Inl TypeError
          else index_files rest (dict_set file_dict file_id file))"
| "index_files (v # rest) file_dict = Inl AttributeError"

definition get_remote_files :: "'s transport \<Rightarrow> 's world \<Rightarrow> remote_files \<times> 's world" where
  "get_remote_files tr w =
     (case get_files tr w of
        (files, w') \<Rightarrow>
          (case py_iter files of
             Inl e \<Rightarrow> ([], w')
           | Inr items \<Rightarrow>
               (case index_files items [] of Inl e \<Rightarrow> ([], w') | Inr file_dict \<Rightarrow> (file_dict, w'))))"

fun index_collections :: "json list \<Rightarrow> remote_collections \<Rightarrow> remote_collections" where
  \<comment> \<open>the loop of \<^verbatim>\<open>get_remote_collections\<close>: an exception ends it and what was stored
      before stays\<close>
  "index_collections [] collections = collections"
| "index_collections (collection # rest) collections =
     (case py_getitem collection ''name'' of
        Inl e \<Rightarrow> collections
      | Inr name \<Rightarrow>
          if \<not> hashable name then collections
          else index_collections rest (dict_set collections name collection))"

definition get_remote_collections :: "'s transport \<Rightarrow> 's world \<Rightarrow> remote_collections \<times> 's world"
  where
  "get_remote_collections tr w =
     (case get_knowledge_collections tr w of
        (response, w') \<Rightarrow>
          (case py_iter response of
             Inl e \<Rightarrow> ([], w')
           | Inr items \<Rightarrow> (index_collections items [], w')))"

section \<open>sync\_knowledge.py: the reconciler\<close>

definition name_matches :: "string \<Rightarrow> json \<times> dict \<Rightarrow> bool" where
  \<comment> \<open>the test of the search loop of \<^verbatim>\<open>sync_file\<close>\<close>
  "name_matches file_name item \<longleftrightarrow>
     map_of (snd item) ''filename'' = Some (JStr file_name)
     \<or> map_of (snd item) ''file_name'' = Some (JStr file_name)"

definition existing_file_id :: "string \<Rightarrow> remote_files \<Rightarrow> json option" where
  \<comment> \<open>the id at which the search loop breaks, \<open>None\<close> when it runs to the end\<close>
  "existing_file_id file_name remote_files =
     (case find (name_matches file_name) remote_files of
        None \<Rightarrow> None
      | Some item \<Rightarrow> Some (fst item))"

definition sync_file :: "'s transport \<Rightarrow> os_env \<Rightarrow> json \<Rightarrow> string \<Rightarrow> remote_files \<Rightarrow> 's world \<Rightarrow> 's world"
  where
  \<comment> \<open>the \<^verbatim>\<open>try\<close> block catches every exception, so only the new state is returned\<close>
  "sync_file tr env collection_id file_path remote_files w =
     (let file_name = basename file_path
      in case existing_file_id file_name remote_files of
           None \<Rightarrow> snd (add_file_to_knowledge tr env collection_id (JStr file_path) w)
         | Some file_id \<Rightarrow>
             if truthy file_id then snd (add_file_to_knowledge tr env collection_id file_id w)
             else snd (add_file_to_knowledge tr env collection_id (JStr file_path) w))"

fun ids_of :: "json list \<Rightarrow> exn + json list" where
  \<comment> \<open>\<^verbatim>\<open>{file['id'] for file in files}\<close>, before the values are put into the set\<close>
  "ids_of [] = Inr []"
| "ids_of (file # rest) =
     (case py_getitem file ''id'' of
        Inl e \<Rightarrow> Inl e
      | Inr i \<Rightarrow>
          if \<not> hashable i then Inl TypeError
          else (case ids_of rest of Inl e \<Rightarrow> Inl e | Inr is \<Rightarrow> Inr (i # is)))"

definition set_of :: "json \<Rightarrow> exn + json set" where
  \<comment> \<open>\<^verbatim>\<open>set(x)\<close>\<close>
  "set_of x =
     (case py_iter x of
        Inl e \<Rightarrow> Inl e
      | Inr vs \<Rightarrow> if list_all hashable vs then Inr (set vs) else Inl TypeError)"

definition collection_file_ids :: "json \<Rightarrow> exn + json set" where
  \<comment> \<open>the files currently in the collection, from the detail response\<close>
  "collection_file_ids collection_info =
     (case py_in ''files'' collection_info of
        Inl e \<Rightarrow> Inl e
      | Inr True \<Rightarrow>
          (case py_getitem collection_info ''files'' of
             Inl e \<Rightarrow> Inl e
           | Inr files \<Rightarrow>
               (case py_iter files of
                  Inl e \<Rightarrow> Inl e
                | Inr fs \<Rightarrow> (case ids_of fs of Inl e \<Rightarrow> Inl e | Inr is \<Rightarrow> Inr (set is))))
      | Inr False \<Rightarrow>
          (case py_in ''data'' collection_info of
             Inl e \<Rightarrow> Inl e
           | Inr False \<Rightarrow> Inr {}
           | Inr True \<Rightarrow>
               (case py_getitem collection_info ''data'' of
                  Inl e \<Rightarrow> Inl e
                | Inr data \<Rightarrow>
                    (case py_in ''file_ids'' data of
                       Inl e \<Rightarrow> Inl e
                     | Inr False \<Rightarrow> Inr {}
                     | Inr True \<Rightarrow>
                         (case py_getitem data ''file_ids'' of
                            Inl e \<Rightarrow> Inl e
                          | Inr file_ids \<Rightarrow> set_of file_ids)))))"

definition collection_local_files :: "string \<Rightarrow> local_files \<Rightarrow> local_files" where
  \<comment> \<open>\<open>rel_collection_dir\<close> is \<^verbatim>\<open>str(collection_dir.relative_to(base_dir))\<close>\<close>
  "collection_local_files rel_collection_dir local_files =
     filter (\<lambda>(rel_path, file_info). startswith rel_path (rel_collection_dir @ os_sep)) local_files"

definition ensure_collection ::
  "'s transport \<Rightarrow> string \<Rightarrow> remote_collections \<Rightarrow> string \<Rightarrow> 's world
     \<Rightarrow> remote_collections \<times> 's world" where
  \<comment> \<open>the first statement of \<^verbatim>\<open>sync_collection\<close>: create the collection if it is not in
      the index\<close>
  "ensure_collection tr collection_name remote_collections dir_name w =
     (if JStr collection_name \<notin> fst ` set remote_collections then
        (case create_knowledge_collection tr collection_name
                (''Auto-created by sync script from '' @ dir_name) w of
           (collection, w') \<Rightarrow> (dict_set remote_collections (JStr collection_name) collection, w'))
      else (remote_collections, w))"

definition sync_collection ::
  "'s transport \<Rightarrow> os_env \<Rightarrow> string \<Rightarrow> local_files \<Rightarrow> remote_files \<Rightarrow> remote_collections
     \<Rightarrow> string \<Rightarrow> 's world \<Rightarrow> (exn + unit) \<times> remote_collections \<times> 's world" where
  \<comment> \<open>\<open>dir_name\<close> stands for \<open>collection_dir\<close>, a direct child of \<open>base_dir\<close>: it is both
      \<^verbatim>\<open>collection_dir.name\<close> and the path relative to \<open>base_dir\<close>. The index is updated in
      place in the source, so it is returned.\<close>
  "sync_collection tr env collection_name local_files remote_files remote_collections dir_name w =
     (case ensure_collection tr collection_name remote_collections dir_name w of
        (remote_collections', w1) \<Rightarrow>
          (case map_of remote_collections' (JStr collection_name) of
             None \<Rightarrow> (Inl KeyError, remote_collections', w1)
           | Some collection \<Rightarrow>
               (case py_getitem collection ''id'' of
                  Inl e \<Rightarrow> (Inl e, remote_collections', w1)
                | Inr collection_id \<Rightarrow>
                    (case get_knowledge_collection tr collection_id w1 of
                       (collection_info, w2) \<Rightarrow>
                         (case collection_file_ids collection_info of
                            Inl e \<Rightarrow> (Inl e, remote_collections', w2)
                          | Inr file_ids \<Rightarrow>
                              (Inr (), remote_collections',
                               fold (\<lambda>(rel_path, file_info) w'.
                                       sync_file tr env collection_id (path file_info) remote_files w')
                                    (collection_local_files dir_name local_files) w2))))))"

fun sync_items ::
  "'s transport \<Rightarrow> os_env \<Rightarrow> local_files \<Rightarrow> remote_files \<Rightarrow> (string \<times> fsnode) list
     \<Rightarrow> remote_collections \<Rightarrow> 's world \<Rightarrow> (exn + unit) \<times> 's world" where
  \<comment> \<open>the loop of \<^verbatim>\<open>sync_knowledge\<close> over \<^verbatim>\<open>base_dir.iterdir()\<close>\<close>
  "sync_items tr env local_files remote_files [] remote_collections w = (Inr (), w)"
| "sync_items tr env local_files remote_files ((name, item) # rest) remote_collections w =
     (if is_dir item then
        (case sync_collection tr env (prettify_name name) local_files remote_files
                remote_collections name w of
           (Inl e, remote_collections', w') \<Rightarrow> (Inl e, w')
         | (Inr u, remote_collections', w') \<Rightarrow>
             sync_items tr env local_files remote_files rest remote_collections' w')
      else sync_items tr env local_files remote_files rest remote_collections w)"

fun iterdir :: "fsnode \<Rightarrow> exn + (string \<times> fsnode) list" where
  \<comment> \<open>\<^verbatim>\<open>base_dir.iterdir()\<close>\<close>
  "iterdir (Dir listable entries) = (if listable then Inr entries else Inl OSError)"
| "iterdir (File st content) = Inl OSError"

definition sync_knowledge ::
  "(string \<Rightarrow> string) \<Rightarrow> 's transport \<Rightarrow> os_env \<Rightarrow> string \<Rightarrow> fsnode \<Rightarrow> 's world
     \<Rightarrow> (exn + unit) \<times> 's world" where
  "sync_knowledge sha256 tr env base_dir tree w =
     (case get_local_files sha256 base_dir tree of
        Inl e \<Rightarrow> (Inl e, w)
      | Inr local_files \<Rightarrow>
          (case get_remote_files tr w of
             (remote_files, w1) \<Rightarrow>
               (case get_remote_collections tr w1 of
                  (remote_collections, w2) \<Rightarrow>
                    (case iterdir tree of
                       Inl e \<Rightarrow> (Inl e, w2)
                     | Inr items \<Rightarrow>
                         sync_items tr env local_files remote_files items remote_collections w2))))"

section \<open>sync\_knowledge.py: main\<close>

definition client_init :: "json \<Rightarrow> exn + unit" where
  \<comment> \<open>what can go wrong between the loaded config and the constructed client: a key that
      is missing, and a \<^verbatim>\<open>base_url\<close> that is empty or not a string\<close>
  "client_init config =
     (case py_getitem config ''base_url'' of
        Inl e \<Rightarrow> Inl e
      | Inr base_url \<Rightarrow>
          (case py_getitem config ''api_key'' of
             Inl e \<Rightarrow> Inl e
           | Inr api_key \<Rightarrow>
               (case py_getitem config ''jwt_token'' of
                  Inl e \<Rightarrow> Inl e
                | Inr jwt_token \<Rightarrow>
                    if \<not> truthy base_url then Inl ValueError
                    else (case base_url of JStr u \<Rightarrow> Inr () | _ \<Rightarrow> Inl AttributeError))))"

definition main ::
  "(string \<Rightarrow> string) \<Rightarrow> 's transport \<Rightarrow> os_env \<Rightarrow> json option \<Rightarrow> string \<Rightarrow> fsnode option
     \<Rightarrow> 's world \<Rightarrow> nat \<times> 's world" where
  \<comment> \<open>The exit status. \<open>config\<close> is the loaded config file, \<open>None\<close> when it cannot be read
      or parsed; \<open>tree\<close> is what is at \<open>--base-dir\<close>, \<open>None\<close> when nothing is. An exception
      that nothing catches ends the interpreter with status 1.\<close>
  "main sha256 tr env config base_dir tree w =
     (case config of
        None \<Rightarrow> (1, w)
      | Some cfg \<Rightarrow>
          (case client_init cfg of
             Inl e \<Rightarrow> (1, w)
           | Inr u \<Rightarrow>
               (case tree of
                  None \<Rightarrow> (1, w)
                | Some t \<Rightarrow>
                    if \<not> is_dir t then (1, w)
                    else (case sync_knowledge sha256 tr env base_dir t w of
                            (Inl e, w') \<Rightarrow> (1, w')
                          | (Inr u', w') \<Rightarrow> (0, w')))))"

section \<open>Notions for the statements\<close>

subsection \<open>The scan\<close>

text \<open>
  The tree with every directory that cannot be listed made empty, the files that the walk
  reaches, and the files on which the scan raises.
\<close>

fun prune :: "fsnode \<Rightarrow> fsnode" where
  "prune (File st content) = File st content"
| "prune (Dir listable entries) =
     (if listable then Dir True (map (\<lambda>(n, e). (n, prune e)) entries) else Dir True [])"

definition reached :: "fsnode \<Rightarrow> (string \<times> nat option \<times> string option) list" where
  "reached tree = concat (map snd (os_walk [] tree))"

definition scan_fails :: "string \<times> nat option \<times> string option \<Rightarrow> bool" where
  "scan_fails f \<longleftrightarrow>
     (case f of (filename, st, content) \<Rightarrow>
        is_supported_file filename st = Inl OSError
        \<or> (is_supported_file filename st = Inr True \<and> content = None))"

subsection \<open>The requests of a run\<close>

text \<open>
  The four requests of the reconciler, the kinds of request, and what is sent first for a
  file, for a directory and for a root.
\<close>

definition create_request :: "string \<Rightarrow> string \<Rightarrow> request" where
  "create_request name description =
     (POST, Knowledge,
      JsonBody (JObj [(''name'', JStr name), (''description'', JStr description)]))"

definition detail_request :: "json \<Rightarrow> request" where
  "detail_request collection_id = (GET, KnowledgeId collection_id, NoBody)"

definition upload_request :: "string \<Rightarrow> request" where
  "upload_request file_path = (POST, FilesUpload, Multipart (basename file_path) file_path)"

definition attach_request :: "json \<Rightarrow> json \<Rightarrow> request" where
  "attach_request collection_id file_id =
     (POST, KnowledgeFiles collection_id, JsonBody (JObj [(''file_id'', file_id)]))"

fun is_create :: "request \<Rightarrow> bool" where
  "is_create (POST, Knowledge, b) = True"
| "is_create r = False"

fun is_upload :: "request \<Rightarrow> bool" where
  "is_upload (POST, FilesUpload, b) = True"
| "is_upload r = False"

fun is_attach :: "request \<Rightarrow> bool" where
  "is_attach (POST, KnowledgeFiles c, b) = True"
| "is_attach r = False"

definition sync_arg :: "remote_files \<Rightarrow> string \<Rightarrow> json" where
  \<comment> \<open>what \<^verbatim>\<open>sync_file\<close> passes to \<^verbatim>\<open>add_file_to_knowledge\<close> for the file at \<open>file_path\<close>\<close>
  "sync_arg remote_files file_path =
     (case existing_file_id (basename file_path) remote_files of
        None \<Rightarrow> JStr file_path
      | Some file_id \<Rightarrow> if truthy file_id then file_id else JStr file_path)"

definition first_requests :: "os_env \<Rightarrow> json \<Rightarrow> json \<Rightarrow> request list" where
  \<comment> \<open>the request that \<^verbatim>\<open>add_file_to_knowledge\<close> makes first, if it makes one\<close>
  "first_requests env collection_id x =
     (if is_local_file env x then
        (if can_open env (path_of x) then [upload_request (path_of x)] else [])
      else [attach_request collection_id x])"

definition uploads :: "os_env \<Rightarrow> json \<Rightarrow> request list" where
  "uploads env x =
     (if is_local_file env x \<and> can_open env (path_of x) then [upload_request (path_of x)] else [])"

definition selected_uploads :: "os_env \<Rightarrow> remote_files \<Rightarrow> local_files \<Rightarrow> request list" where
  "selected_uploads env rf sel = concat (map (\<lambda>(rel, fi). uploads env (sync_arg rf (path fi))) sel)"

definition auto_description :: "string \<Rightarrow> string" where
  "auto_description dir_name = ''Auto-created by sync script from '' @ dir_name"

definition ensure_requests :: "remote_collections \<Rightarrow> string \<Rightarrow> string \<Rightarrow> request list" where
  "ensure_requests rc name dir_name =
     (if JStr name \<in> fst ` set rc then [] else [create_request name (auto_description dir_name)])"

definition attempted :: "os_env \<Rightarrow> remote_files \<Rightarrow> local_files \<Rightarrow> request list \<Rightarrow> bool" where
  \<comment> \<open>for one collection id, the first request of each of the files is among the requests\<close>
  "attempted env rf sel reqs \<longleftrightarrow>
     (\<exists>cid. \<forall>(rel, fi)\<in>set sel. set (first_requests env cid (sync_arg rf (path fi))) \<subseteq> set reqs)"

fun creations :: "json list \<Rightarrow> (string \<times> fsnode) list \<Rightarrow> (string \<times> string) list" where
  \<comment> \<open>the collections to create, with the directory that causes it: the prettified names of
      the directories, in order, that are neither in the index nor created before\<close>
  "creations keys [] = []"
| "creations keys ((n, item) # rest) =
     (if is_dir item \<and> JStr (prettify_name n) \<notin> set keys
      then (prettify_name n, n) # creations (JStr (prettify_name n) # keys) rest
      else creations keys rest)"

definition creates :: "json list \<Rightarrow> (string \<times> fsnode) list \<Rightarrow> request list" where
  "creates keys items =
     map (\<lambda>(name, d). create_request name (auto_description d)) (creations keys items)"

definition all_uploads :: "os_env \<Rightarrow> remote_files \<Rightarrow> local_files \<Rightarrow> (string \<times> fsnode) list \<Rightarrow> request list"
  where
  "all_uploads env rf lf items =
     concat (map (\<lambda>(n, item). if is_dir item
                               then selected_uploads env rf (collection_local_files n lf) else [])
                 items)"

subsection \<open>Answers that let a run complete\<close>

definition has_id :: "json \<Rightarrow> bool" where
  \<comment> \<open>\<^verbatim>\<open>c['id']\<close> does not raise\<close>
  "has_id c = (case py_getitem c ''id'' of Inr collection_id \<Rightarrow> True | Inl e \<Rightarrow> False)"

definition detail_ok :: "json \<Rightarrow> bool" where
  \<comment> \<open>reading the file ids from the detail response does not raise\<close>
  "detail_ok info = (case collection_file_ids info of Inr ids \<Rightarrow> True | Inl e \<Rightarrow> False)"

subsection \<open>A snapshot that reflects a run\<close>

definition has_match :: "remote_files \<Rightarrow> string \<Rightarrow> bool" where
  \<comment> \<open>a remote file carries the name\<close>
  "has_match remote_files file_name \<longleftrightarrow> find (name_matches file_name) remote_files \<noteq> None"

fun created_name :: "request \<Rightarrow> json option" where
  "created_name (POST, Knowledge, JsonBody (JObj ((k, name) # kv))) = Some name"
| "created_name q = None"

fun uploaded_path :: "request \<Rightarrow> string option" where
  "uploaded_path (POST, FilesUpload, Multipart b p) = Some p"
| "uploaded_path q = None"

definition reflects ::
  "local_files \<Rightarrow> request list \<Rightarrow> remote_files \<Rightarrow> remote_collections
     \<Rightarrow> remote_files \<Rightarrow> remote_collections \<Rightarrow> bool" where
  \<comment> \<open>the second snapshot \<open>rf2\<close>, \<open>rc2\<close> reflects a first run that started from the snapshot
      \<open>rf1\<close>, \<open>rc1\<close> and sent the requests \<open>sent\<close>: the collections that were there or were
      created are in the index, and the names of the local files that had a remote match
      or were uploaded have one\<close>
  "reflects local_files sent rf1 rc1 rf2 rc2 \<longleftrightarrow>
     list_all (\<lambda>k. k \<in> fst ` set rc2) (map fst rc1)
     \<and> list_all (\<lambda>q. case created_name q of None \<Rightarrow> True
                                          | Some name \<Rightarrow> name \<in> fst ` set rc2) sent
     \<and> list_all (\<lambda>(rel, fi). has_match rf1 (basename (path fi))
                               \<longrightarrow> has_match rf2 (basename (path fi))) local_files
     \<and> list_all (\<lambda>q. case uploaded_path q of None \<Rightarrow> True
                                           | Some p \<Rightarrow> has_match rf2 (basename p)) sent"

section \<open>A remote service and local trees for the concrete runs\<close>

text \<open>
  A small remote service that answers the requests of the client: it keeps the
  collections and the files it was sent, gives a collection the id \<open>c-\<close> and its name, a
  file the id \<open>f-\<close> and its name, and answers anything else with 404. The transport
  \<open>service_tr down\<close> fails the requests in \<open>down\<close> with a transport error and passes the
  others to the service.
\<close>

record service =
  colls :: "(string \<times> string) list"    \<comment> \<open>id and name\<close>
  files :: "(string \<times> string) list"    \<comment> \<open>id and filename\<close>
  links :: "(json \<times> string) list"      \<comment> \<open>collection id and file id\<close>

definition ok :: "json \<Rightarrow> response option" where
  "ok v = Some \<lparr>status_code = 200, body = Some v\<rparr>"

definition coll_json :: "string \<times> string \<Rightarrow> json" where
  "coll_json c = JObj [(''id'', JStr (fst c)), (''name'', JStr (snd c))]"

definition file_json :: "string \<times> string \<Rightarrow> json" where
  "file_json f = JObj [(''id'', JStr (fst f)), (''filename'', JStr (snd f))]"

definition link_json :: "json \<times> string \<Rightarrow> json" where
  "link_json l = JObj [(''id'', JStr (snd l))]"

fun serve :: "request \<Rightarrow> service \<Rightarrow> response option \<times> service" where
  "serve (GET, Knowledge, b) s = (ok (JArr (map coll_json (colls s))), s)"
| "serve (POST, Knowledge, JsonBody (JObj ((k, JStr n) # kv))) s =
     (ok (coll_json (''c-'' @ n, n)), s\<lparr>colls := colls s @ [(''c-'' @ n, n)]\<rparr>)"
| "serve (GET, KnowledgeId cid, b) s =
     (ok (JObj [(''id'', cid),
                (''files'', JArr (map link_json (filter (\<lambda>l. fst l = cid) (links s))))]), s)"
| "serve (GET, Files, b) s = (ok (JArr (map file_json (files s))), s)"
| "serve (POST, FilesUpload, Multipart n p) s =
     (ok (file_json (''f-'' @ n, n)), s\<lparr>files := files s @ [(''f-'' @ n, n)]\<rparr>)"
| "serve (POST, KnowledgeFiles cid, JsonBody (JObj [(k, JStr fid)])) s =
     (ok (JObj []), s\<lparr>links := links s @ [(cid, fid)]\<rparr>)"
| "serve req s = (Some \<lparr>status_code = 404, body = None\<rparr>, s)"

definition service_tr :: "request list \<Rightarrow> service transport" where
  "service_tr down req s = (if req \<in> set down then (None, s) else serve req s)"

definition empty_service :: "service world" where
  "empty_service = \<lparr>log = [], remote = \<lparr>colls = [], files = [], links = []\<rparr>\<rparr>"

definition kb_env :: os_env where
  \<comment> \<open>the files below \<^verbatim>\<open>/kb\<close> exist and can be read\<close>
  "kb_env = \<lparr>isfile = (\<lambda>p. startswith p ''/kb/''), can_open = (\<lambda>p. True)\<rparr>"

definition demo_sha256 :: "string \<Rightarrow> string" where
  \<comment> \<open>stands for the digest in the concrete runs: no property depends on its value\<close>
  "demo_sha256 bytes = ''sha256:'' @ bytes"

definition demo_config :: json where
  "demo_config =
     JObj [(''base_url'', JStr ''https://owui.example''), (''api_key'', JStr ''k''),
           (''jwt_token'', JStr ''t'')]"

definition text_file :: fsnode where
  "text_file = File (Some 3) (Some ''abc'')"

text \<open>Snapshots, trees and scan results.\<close>

definition resume_remote :: remote_files where
  "resume_remote = [(JStr ''f7'', [(''id'', JStr ''f7''), (''filename'', JStr ''resume.pdf'')])]"

definition notes_remote :: remote_files where
  "notes_remote = [(JStr ''f1'', [(''id'', JStr ''f1''), (''file_name'', JStr ''notes.txt'')])]"

definition two_dirs :: fsnode where
  "two_dirs = Dir True [(''career-data'', Dir True [(''a.txt'', text_file)]),
                        (''career_data'', Dir True [(''b.txt'', text_file)])]"

definition unreadable_tree :: fsnode where
  "unreadable_tree =
     Dir True [(''a'', Dir False [(''x.txt'', text_file)]),
               (''b'', Dir True [(''y.txt'', text_file)])]"

definition alpha_beta :: fsnode where
  "alpha_beta = Dir True [(''alpha'', Dir True [(''a.txt'', text_file)]),
                          (''beta'', Dir True [(''b.txt'', text_file)])]"

definition other_files :: local_files where
  "other_files = [(''career-data/notes.txt'', \<lparr>path = ''/kb/career-data/notes.txt'', hash = ''h''\<rparr>)]"

definition root_file_entries :: "(string \<times> fsnode) list" where
  "root_file_entries =
     [(''top.md'', File (Some 3) (Some ''abc'')),
      (''career-data'', Dir True [(''notes.txt'', File (Some 3) (Some ''abc''))])]"

definition root_file_scan :: local_files where
  "root_file_scan =
     [(''top.md'', \<lparr>path = ''/kb/top.md'', hash = ''sha256:abc''\<rparr>),
      (''career-data/notes.txt'', \<lparr>path = ''/kb/career-data/notes.txt'', hash = ''sha256:abc''\<rparr>)]"

definition two_collections :: "(string \<times> fsnode) list" where
  "two_collections =
     [(''career-data'', Dir True [(''resume.pdf'', File (Some 3) (Some ''abc'')),
                                 (''notes.txt'', File (Some 3) (Some ''abc''))]),
      (''other'', Dir True [(''b.txt'', File (Some 3) (Some ''abc''))])]"

definition two_collections_scan :: local_files where
  "two_collections_scan =
     [(''career-data/resume.pdf'', \<lparr>path = ''/kb/career-data/resume.pdf'', hash = ''sha256:abc''\<rparr>),
      (''career-data/notes.txt'', \<lparr>path = ''/kb/career-data/notes.txt'', hash = ''sha256:abc''\<rparr>),
      (''other/b.txt'', \<lparr>path = ''/kb/other/b.txt'', hash = ''sha256:abc''\<rparr>)]"

definition resume_down :: "request list" where
  \<comment> \<open>the upload of the first file fails with a transport error\<close>
  "resume_down = [upload_request ''/kb/career-data/resume.pdf'']"

definition first_run_end :: "service world" where
  "first_run_end =
     snd (sync_knowledge demo_sha256 (service_tr []) kb_env ''/kb'' (Dir True two_collections)
            empty_service)"

definition second_run_start :: "service world" where
  \<comment> \<open>the remote service as the first run left it, and an empty log\<close>
  "second_run_start = \<lparr>log = [], remote = remote first_run_end\<rparr>"

section \<open>Properties\<close>

subsection \<open>The supported-file filter\<close>


subsection \<open>The file ids of a collection\<close>





subsection \<open>Prettified names\<close>

text \<open>
  Claim C10. \<^verbatim>\<open>prettify_name\<close> is not injective: the directory names \<open>career-data\<close> and
  \<open>career_data\<close>, and names that differ in letter case only, get the same collection name.
  A run on a root with the directories \<open>career-data\<close> and \<open>career_data\<close> creates one
  collection and attaches the files of both to it.
\<close>

theorem prettify_name_not_injective:
  "prettify_name ''career-data'' = prettify_name ''career_data''
   \<and> ''career-data'' \<noteq> ''career_data''
   \<and> prettify_name ''abc'' = prettify_name ''ABC''
   \<and> ''abc'' \<noteq> ''ABC''
   \<and> \<not> inj prettify_name
   \<and> remote (snd (sync_knowledge demo_sha256 (service_tr []) kb_env ''/kb'' two_dirs empty_service))
       = \<lparr>colls = [(''c-Career Data'', ''Career Data'')],
          files = [(''f-a.txt'', ''a.txt''), (''f-b.txt'', ''b.txt'')],
          links = [(JStr ''c-Career Data'', ''f-a.txt''), (JStr ''c-Career Data'', ''f-b.txt'')]\<rparr>"
proof -
  have e1: "prettify_name ''career-data'' = prettify_name ''career_data''" by code_simp
  have e2: "prettify_name ''abc'' = prettify_name ''ABC''" by code_simp
  have ni: "\<not> inj prettify_name"
  proof
    assume "inj prettify_name"
    from injD[OF this e2] show False by simp
  qed
  have run: "remote (snd (sync_knowledge demo_sha256 (service_tr []) kb_env ''/kb'' two_dirs empty_service))
       = \<lparr>colls = [(''c-Career Data'', ''Career Data'')],
          files = [(''f-a.txt'', ''a.txt''), (''f-b.txt'', ''b.txt'')],
          links = [(JStr ''c-Career Data'', ''f-a.txt''), (JStr ''c-Career Data'', ''f-b.txt'')]\<rparr>"
    by code_simp
  show ?thesis using e1 e2 ni run by simp
qed

subsection \<open>Syncing one file\<close>

lemma log_make_request: "log (snd (make_request tr req w)) = log w @ [req]"
  by (simp add: make_request_def split: prod.splits)

lemma log_attach:
  "log (snd (attach tr cid fid w))
     = log w @ [(POST, KnowledgeFiles cid, JsonBody (JObj [(''file_id'', fid)]))]"
proof -
  let ?req = "(POST, KnowledgeFiles cid, JsonBody (JObj [(''file_id'', fid)]))"
  obtain r w' where mr: "make_request tr ?req w = (r, w')"
    by (cases "make_request tr ?req w")
  with log_make_request[of tr ?req w] have "log w' = log w @ [?req]" by simp
  with mr show ?thesis by (simp add: attach_def split: option.splits)
qed

lemma log_upload_file:
  "log (snd (upload_file tr env p w))
     = (if can_open env p then log w @ [(POST, FilesUpload, Multipart (basename p) p)] else log w)"
proof -
  let ?req = "(POST, FilesUpload, Multipart (basename p) p)"
  obtain r w' where mr: "make_request tr ?req w = (r, w')"
    by (cases "make_request tr ?req w")
  with log_make_request[of tr ?req w] have "log w' = log w @ [?req]" by simp
  with mr show ?thesis by (simp add: upload_file_def)
qed

lemma add_file_by_id:
  "\<not> is_local_file env x \<Longrightarrow> add_file_to_knowledge tr env cid x w = attach tr cid x w"
  by (simp add: add_file_to_knowledge_def)

lemma add_file_by_path:
  assumes "isfile env p" and "upload_file tr env p w = (JObj data, w1)"
    and "map_of data ''id'' = Some fid"
  shows "add_file_to_knowledge tr env cid (JStr p) w = attach tr cid fid w1"
proof -
  have "data \<noteq> []" using assms(3) by auto
  moreover have "''id'' \<in> fst ` set data"
    using assms(3) by (metis map_of_SomeD fst_conv image_eqI)
  ultimately show ?thesis using assms
    by (simp add: add_file_to_knowledge_def is_local_file_def path_of_def)
qed

text \<open>
  Claim C1, as amended. For a local file, \<^verbatim>\<open>sync_file\<close> looks through the whole remote
  file index for the first remote file whose \<open>filename\<close> or \<open>file_name\<close> is the local
  file's basename. If there is one, it calls the dual-mode attach with that file's id:
  when the id is not the path of a local file, the only request is the attach of that
  id, with no upload and no look at the collection's file ids. If there is none, it
  calls the dual-mode attach with the local path: when the file is on disk and the upload
  answers with an id, the requests are the upload and then the attach of that id.
\<close>

theorem sync_file_search_and_attach:
  "(find (name_matches (basename p)) remote_files = Some item \<and> truthy (fst item)
      \<longrightarrow> sync_file tr env cid p remote_files w
            = snd (add_file_to_knowledge tr env cid (fst item) w))
   \<and> (find (name_matches (basename p)) remote_files = Some item \<and> truthy (fst item)
       \<and> \<not> is_local_file env (fst item)
      \<longrightarrow> log (sync_file tr env cid p remote_files w)
            = log w @ [(POST, KnowledgeFiles cid, JsonBody (JObj [(''file_id'', fst item)]))])
   \<and> (find (name_matches (basename p)) remote_files = None
      \<longrightarrow> sync_file tr env cid p remote_files w
            = snd (add_file_to_knowledge tr env cid (JStr p) w))
   \<and> (find (name_matches (basename p)) remote_files = None
       \<and> isfile env p \<and> can_open env p
       \<and> upload_file tr env p w = (JObj data, w1) \<and> map_of data ''id'' = Some fid
      \<longrightarrow> log (sync_file tr env cid p remote_files w)
            = log w @ [(POST, FilesUpload, Multipart (basename p) p),
                       (POST, KnowledgeFiles cid, JsonBody (JObj [(''file_id'', fid)]))])"
proof (intro conjI impI)
  assume "find (name_matches (basename p)) remote_files = Some item \<and> truthy (fst item)"
  then show "sync_file tr env cid p remote_files w
            = snd (add_file_to_knowledge tr env cid (fst item) w)"
    by (simp add: sync_file_def existing_file_id_def)
next
  assume "find (name_matches (basename p)) remote_files = Some item \<and> truthy (fst item)
       \<and> \<not> is_local_file env (fst item)"
  then show "log (sync_file tr env cid p remote_files w)
            = log w @ [(POST, KnowledgeFiles cid, JsonBody (JObj [(''file_id'', fst item)]))]"
    by (simp add: sync_file_def existing_file_id_def add_file_by_id log_attach)
next
  assume "find (name_matches (basename p)) remote_files = None"
  then show "sync_file tr env cid p remote_files w
            = snd (add_file_to_knowledge tr env cid (JStr p) w)"
    by (simp add: sync_file_def existing_file_id_def)
next
  assume a: "find (name_matches (basename p)) remote_files = None
       \<and> isfile env p \<and> can_open env p
       \<and> upload_file tr env p w = (JObj data, w1) \<and> map_of data ''id'' = Some fid"
  then have "log w1 = log w @ [(POST, FilesUpload, Multipart (basename p) p)]"
    using log_upload_file[of tr env p w] by simp
  moreover have "add_file_to_knowledge tr env cid (JStr p) w = attach tr cid fid w1"
    using a add_file_by_path by blast
  ultimately show "log (sync_file tr env cid p remote_files w)
            = log w @ [(POST, FilesUpload, Multipart (basename p) p),
                       (POST, KnowledgeFiles cid, JsonBody (JObj [(''file_id'', fid)]))]"
    using a by (simp add: sync_file_def existing_file_id_def log_attach)
qed

theorem sync_file_search_and_attach_witness:
  "log (sync_file (service_tr []) kb_env (JStr ''c1'') ''/kb/career-data/resume.pdf''
          resume_remote empty_service)
     = [(POST, KnowledgeFiles (JStr ''c1''), JsonBody (JObj [(''file_id'', JStr ''f7'')]))]
   \<and> log (sync_file (service_tr []) kb_env (JStr ''c1'') ''/kb/career-data/notes.txt''
          resume_remote empty_service)
     = [(POST, FilesUpload, Multipart ''notes.txt'' ''/kb/career-data/notes.txt''),
        (POST, KnowledgeFiles (JStr ''c1''), JsonBody (JObj [(''file_id'', JStr ''f-notes.txt'')]))]"
proof -
  have m: "find (name_matches (basename ''/kb/career-data/resume.pdf'')) resume_remote
       = Some (JStr ''f7'', [(''id'', JStr ''f7''), (''filename'', JStr ''resume.pdf'')])"
    by code_simp
  have l: "\<not> is_local_file kb_env (JStr ''f7'')" by code_simp
  have n: "find (name_matches (basename ''/kb/career-data/notes.txt'')) resume_remote = None"
    by code_simp
  have f: "isfile kb_env ''/kb/career-data/notes.txt'' \<and> can_open kb_env ''/kb/career-data/notes.txt''"
    by code_simp
  have u: "upload_file (service_tr []) kb_env ''/kb/career-data/notes.txt'' empty_service
       = (JObj [(''id'', JStr ''f-notes.txt''), (''filename'', JStr ''notes.txt'')],
          \<lparr>log = [(POST, FilesUpload, Multipart ''notes.txt'' ''/kb/career-data/notes.txt'')],
           remote = \<lparr>colls = [], files = [(''f-notes.txt'', ''notes.txt'')], links = []\<rparr>\<rparr>)"
    by code_simp
  have b: "basename ''/kb/career-data/notes.txt'' = ''notes.txt''" by code_simp
  have e: "log empty_service = []" by (simp add: empty_service_def)
  have 1: "log (sync_file (service_tr []) kb_env (JStr ''c1'') ''/kb/career-data/resume.pdf''
          resume_remote empty_service)
     = [(POST, KnowledgeFiles (JStr ''c1''), JsonBody (JObj [(''file_id'', JStr ''f7'')]))]"
    using conjunct1 [OF conjunct2 [OF sync_file_search_and_attach
      [of "''/kb/career-data/resume.pdf''" resume_remote
          "(JStr ''f7'', [(''id'', JStr ''f7''), (''filename'', JStr ''resume.pdf'')])"
          "service_tr []" kb_env "JStr ''c1''" empty_service]]]
      m l e by simp
  have 2: "log (sync_file (service_tr []) kb_env (JStr ''c1'') ''/kb/career-data/notes.txt''
          resume_remote empty_service)
     = [(POST, FilesUpload, Multipart ''notes.txt'' ''/kb/career-data/notes.txt''),
        (POST, KnowledgeFiles (JStr ''c1''), JsonBody (JObj [(''file_id'', JStr ''f-notes.txt'')]))]"
    using conjunct2 [OF conjunct2 [OF conjunct2 [OF sync_file_search_and_attach
      [of "''/kb/career-data/notes.txt''" resume_remote _
          "service_tr []" kb_env "JStr ''c1''" empty_service
          "[(''id'', JStr ''f-notes.txt''), (''filename'', JStr ''notes.txt'')]"
          "\<lparr>log = [(POST, FilesUpload, Multipart ''notes.txt'' ''/kb/career-data/notes.txt'')],
           remote = \<lparr>colls = [], files = [(''f-notes.txt'', ''notes.txt'')], links = []\<rparr>\<rparr>"
          "JStr ''f-notes.txt''"]]]]
      n f u b e by simp
  show ?thesis using 1 2 by simp
qed

text \<open>
  The claim as stated, with the match on \<open>filename\<close> alone, fails: the only remote file
  here has no \<open>filename\<close>, the local file is on disk, and yet nothing is uploaded: the
  remote file matched through \<open>file_name\<close> is attached.
\<close>

theorem sync_file_filename_only_counterexample:
  "map_of (snd (hd notes_remote)) ''filename'' = None
   \<and> length notes_remote = 1
   \<and> isfile kb_env ''/kb/career-data/notes.txt''
   \<and> log (sync_file (service_tr []) kb_env (JStr ''c1'') ''/kb/career-data/notes.txt''
            notes_remote empty_service)
       = [(POST, KnowledgeFiles (JStr ''c1''), JsonBody (JObj [(''file_id'', JStr ''f1'')]))]"
  by code_simp

subsection \<open>The scan and the errors of the walk\<close>

lemma is_supported_file_error: "is_supported_file n st = Inl e \<Longrightarrow> e = OSError"
  by (auto simp: is_supported_file_def split: if_splits option.splits)

lemma scan_filenames_fails:
  "(\<exists>e. scan_filenames sha d root fs acc = Inl e) \<longleftrightarrow> (\<exists>f\<in>set fs. scan_fails f)"
proof (induction fs arbitrary: acc)
  case Nil
  then show ?case by simp
next
  case (Cons f fs)
  obtain n st c where f: "f = (n, st, c)" by (cases f)
  show ?case
  proof (cases "is_supported_file n st")
    case (Inl e)
    then have "e = OSError" by (rule is_supported_file_error)
    with Inl f show ?thesis by (simp add: scan_fails_def)
  next
    case (Inr b)
    show ?thesis
    proof (cases b)
      case False
      with Inr f Cons.IH show ?thesis by (simp add: scan_fails_def)
    next
      case True
      with Inr f Cons.IH show ?thesis
        by (cases c) (simp_all add: scan_fails_def get_file_hash_def Let_def)
    qed
  qed
qed

lemma scan_filenames_error:
  "scan_filenames sha d root fs acc = Inl e \<Longrightarrow> e = OSError"
proof (induction fs arbitrary: acc)
  case Nil
  then show ?case by simp
next
  case (Cons f fs)
  obtain n st c where f: "f = (n, st, c)" by (cases f)
  from Cons.prems f Cons.IH show ?case
    by (auto simp: Let_def get_file_hash_def split: sum.splits bool.splits option.splits
        dest: is_supported_file_error)
qed

lemma scan_walk_fails:
  "(\<exists>e. scan_walk sha d xs acc = Inl e) \<longleftrightarrow> (\<exists>f\<in>set (concat (map snd xs)). scan_fails f)"
proof (induction xs arbitrary: acc)
  case Nil
  then show ?case by simp
next
  case (Cons x xs)
  obtain root fs where x: "x = (root, fs)" by (cases x)
  show ?case
  proof (cases "scan_filenames sha d root fs acc")
    case (Inl e)
    then have "\<exists>f\<in>set fs. scan_fails f" using scan_filenames_fails by blast
    with Inl x show ?thesis by auto
  next
    case (Inr acc')
    then have "\<not> (\<exists>f\<in>set fs. scan_fails f)"
      using scan_filenames_fails[of sha d root fs acc] by simp
    with Inr x Cons.IH[of acc'] show ?thesis by auto
  qed
qed

lemma scan_walk_error: "scan_walk sha d xs acc = Inl e \<Longrightarrow> e = OSError"
proof (induction xs arbitrary: acc)
  case Nil
  then show ?case by simp
next
  case (Cons x xs)
  obtain root fs where x: "x = (root, fs)" by (cases x)
  from Cons.prems x Cons.IH show ?case
    by (auto split: sum.splits dest: scan_filenames_error)
qed

lemma scan_walk_skip_empty:
  "scan_walk sha d xs acc = scan_walk sha d (filter (\<lambda>x. snd x \<noteq> []) xs) acc"
proof (induction xs arbitrary: acc)
  case Nil
  then show ?case by simp
next
  case (Cons x xs)
  obtain root fs where x: "x = (root, fs)" by (cases x)
  show ?case
  proof (cases "fs = []")
    case True
    with x Cons.IH show ?thesis by simp
  next
    case False
    with x Cons.IH show ?thesis by (simp split: sum.splits)
  qed
qed

lemma is_dir_prune: "is_dir (prune e) = is_dir e"
  by (cases e) simp_all

lemma files_in_prune: "files_in (map (\<lambda>(n, e). (n, prune e)) entries) = files_in entries"
proof (induction entries rule: files_in.induct)
  case 1
  then show ?case by simp
next
  case (2 n st content es)
  then show ?case by simp
next
  case (3 n listable entries es)
  then show ?case by simp
qed

lemma walk_entries_prune:
  "map (\<lambda>(n, e). if is_dir e then os_walk (root @ [n]) e else [])
       (map (\<lambda>(n, e). (n, prune e)) entries)
   = map (\<lambda>(n, e). if is_dir e then os_walk (root @ [n]) (prune e) else []) entries"
  by (induction entries) (auto simp: is_dir_prune)

lemma os_walk_prune:
  "filter (\<lambda>x. snd x \<noteq> []) (os_walk root (prune t)) = filter (\<lambda>x. snd x \<noteq> []) (os_walk root t)"
proof (induction root t rule: os_walk.induct)
  case (1 root st content)
  then show ?case by simp
next
  case (2 root listable entries)
  show ?case
  proof (cases listable)
    case False
    then show ?thesis by simp
  next
    case True
    let ?P = "\<lambda>x :: string list \<times> (string \<times> nat option \<times> string option) list. snd x \<noteq> []"
    let ?f = "\<lambda>(n, e). if is_dir e then os_walk (root @ [n]) (prune e) else []"
    let ?g = "\<lambda>(n, e). if is_dir e then os_walk (root @ [n]) e else []"
    have sub: "filter ?P (?f x) = filter ?P (?g x)" if xin: "x \<in> set entries" for x
    proof -
      obtain n e where x: "x = (n, e)" by (cases x)
      show ?thesis
      proof (cases "is_dir e")
        case d: True
        have "filter ?P (os_walk (root @ [n]) (prune e)) = filter ?P (os_walk (root @ [n]) e)"
          using "2.IH" True xin x d by blast
        with x d show ?thesis by simp
      next
        case False
        with x show ?thesis by simp
      qed
    qed
    have m: "map (\<lambda>x. filter ?P (?f x)) entries = map (\<lambda>x. filter ?P (?g x)) entries"
      using sub by (rule map_cong[OF refl])
    have cc: "filter ?P (concat (map ?f entries)) = filter ?P (concat (map ?g entries))"
      unfolding filter_concat map_map comp_def using m by (rule arg_cong[where f = concat])
    have "os_walk root (prune (Dir listable entries))
            = (root, files_in entries) # concat (map ?f entries)"
      using True by (simp add: files_in_prune walk_entries_prune del: map_map)
    moreover have "os_walk root (Dir listable entries)
            = (root, files_in entries) # concat (map ?g entries)"
      using True by simp
    ultimately show ?thesis using cc by (simp del: os_walk.simps prune.simps)
  qed
qed

text \<open>
  Claim C8, as amended. A directory that cannot be listed does not end the scan and is
  not reported: \<^verbatim>\<open>os.walk\<close> is called without an error handler, so the scan returns what
  it returns on the tree in which every such directory is empty, and the empty mapping
  when the root itself cannot be listed. The scan fails exactly when \<^verbatim>\<open>stat\<close> or reading
  raises for a file that the walk reached.
\<close>

theorem get_local_files_walk_errors:
  "get_local_files sha256 directory tree = get_local_files sha256 directory (prune tree)
   \<and> get_local_files sha256 directory (Dir False entries) = Inr []
   \<and> (get_local_files sha256 directory tree = Inl OSError) = list_ex scan_fails (reached tree)
   \<and> (\<exists>files. get_local_files sha256 directory tree = Inr files)
       = (\<not> list_ex scan_fails (reached tree))"
proof -
  have 1: "get_local_files sha256 directory tree = get_local_files sha256 directory (prune tree)"
    unfolding get_local_files_def
    using scan_walk_skip_empty[of sha256 directory "os_walk [] tree" "[]"]
      scan_walk_skip_empty[of sha256 directory "os_walk [] (prune tree)" "[]"]
      os_walk_prune[of "[]" tree]
    by simp
  have 2: "get_local_files sha256 directory (Dir False entries) = Inr []"
    by (simp add: get_local_files_def)
  have f: "(\<exists>e. get_local_files sha256 directory tree = Inl e)
        \<longleftrightarrow> list_ex scan_fails (reached tree)"
    unfolding get_local_files_def reached_def list_ex_iff
    by (rule scan_walk_fails)
  have e: "e = OSError" if "get_local_files sha256 directory tree = Inl e" for e
    using that unfolding get_local_files_def by (rule scan_walk_error)
  have 3: "(get_local_files sha256 directory tree = Inl OSError)
        = list_ex scan_fails (reached tree)"
    using f e by blast
  have 4: "(\<exists>files. get_local_files sha256 directory tree = Inr files)
        = (\<not> list_ex scan_fails (reached tree))"
    using f by (cases "get_local_files sha256 directory tree") auto
  show ?thesis using 1 2 3 4 by blast
qed

text \<open>
  The claim as stated fails: the directory \<open>a\<close> cannot be listed, and the scan returns the
  mapping of the rest without the file below \<open>a\<close>.
\<close>

theorem get_local_files_partial_counterexample:
  "get_local_files demo_sha256 ''/kb'' unreadable_tree
     = Inr [(''b/y.txt'', \<lparr>path = ''/kb/b/y.txt'', hash = ''sha256:abc''\<rparr>)]"
  by code_simp

subsection \<open>The requests of a run\<close>

lemma is_kind_simps [simp]:
  "is_create (create_request n d)" "\<not> is_upload (create_request n d)" "\<not> is_attach (create_request n d)"
  "\<not> is_create (detail_request c)" "\<not> is_upload (detail_request c)" "\<not> is_attach (detail_request c)"
  "\<not> is_create (upload_request p)" "is_upload (upload_request p)" "\<not> is_attach (upload_request p)"
  "\<not> is_create (attach_request c f)" "\<not> is_upload (attach_request c f)" "is_attach (attach_request c f)"
  by (simp_all add: create_request_def detail_request_def upload_request_def attach_request_def)

lemma log_make_request': "make_request tr req w = (r, w') \<Longrightarrow> log w' = log w @ [req]"
  using log_make_request[of tr req w] by simp

lemma create_log:
  "create_knowledge_collection tr n d w = (c, w') \<Longrightarrow> log w' = log w @ [create_request n d]"
  by (auto simp: create_knowledge_collection_def create_request_def split: prod.splits
      dest: log_make_request')

lemma detail_log:
  "get_knowledge_collection tr cid w = (c, w') \<Longrightarrow> log w' = log w @ [detail_request cid]"
  by (auto simp: get_knowledge_collection_def detail_request_def split: prod.splits
      dest: log_make_request')

lemma attach_log:
  "attach tr cid fid w = (r, w') \<Longrightarrow> log w' = log w @ [attach_request cid fid]"
  by (auto simp: attach_def attach_request_def split: prod.splits option.splits
      dest: log_make_request')

lemma upload_log:
  "upload_file tr env p w = (r, w') \<Longrightarrow>
   log w' = log w @ (if can_open env p then [upload_request p] else [])"
  by (auto simp: upload_file_def upload_request_def split: prod.splits if_splits
      dest: log_make_request')

lemma upload_cannot_open:
  "\<not> can_open env p \<Longrightarrow> upload_file tr env p w = (JObj [], w)"
  by (simp add: upload_file_def)

lemma add_file_log:
  "add_file_to_knowledge tr env cid x w = (r, w') \<Longrightarrow>
   \<exists>rest. log w' = log w @ first_requests env cid x @ rest
        \<and> (\<forall>q\<in>set rest. is_attach q)"
proof (cases "is_local_file env x")
  case False
  assume "add_file_to_knowledge tr env cid x w = (r, w')"
  with False have "attach tr cid x w = (r, w')" by (simp add: add_file_to_knowledge_def)
  then have "log w' = log w @ [attach_request cid x]" by (rule attach_log)
  with False show ?thesis by (simp add: first_requests_def)
next
  case True
  assume a: "add_file_to_knowledge tr env cid x w = (r, w')"
  obtain fd w1 where u: "upload_file tr env (path_of x) w = (fd, w1)"
    by (cases "upload_file tr env (path_of x) w")
  then have l1: "log w1 = log w @ first_requests env cid x"
    using True upload_log[OF u] by (simp add: first_requests_def)
  show ?thesis
  proof (cases "\<exists>fid. attach tr cid fid w1 = (r, w')")
    case True
    then obtain fid where "attach tr cid fid w1 = (r, w')" by auto
    then have "log w' = log w1 @ [attach_request cid fid]" by (rule attach_log)
    with l1 show ?thesis by simp
  next
    case False
    with a u \<open>is_local_file env x\<close> have "w' = w1"
      by (auto simp: add_file_to_knowledge_def split: if_splits sum.splits bool.splits)
    with l1 show ?thesis by simp
  qed
qed

lemma sync_file_eq:
  "sync_file tr env cid p rf w = snd (add_file_to_knowledge tr env cid (sync_arg rf p) w)"
  by (simp add: sync_file_def sync_arg_def split: option.splits)

lemma sync_file_log:
  "\<exists>rest. log (sync_file tr env cid p rf w) = log w @ first_requests env cid (sync_arg rf p) @ rest
        \<and> (\<forall>q\<in>set rest. is_attach q)"
  unfolding sync_file_eq
  using add_file_log[of tr env cid "sync_arg rf p" w]
  by (cases "add_file_to_knowledge tr env cid (sync_arg rf p) w") simp

lemma attach_not_others: "is_attach q \<Longrightarrow> \<not> is_upload q \<and> \<not> is_create q"
  by (induction q rule: is_attach.induct) simp_all

lemma filter_attach_only:
  "\<forall>q\<in>set rest. is_attach q \<Longrightarrow> filter is_upload rest = [] \<and> filter is_create rest = []"
  by (induction rest) (auto dest: attach_not_others)

lemma first_requests_filter:
  "filter is_upload (first_requests env cid x) = uploads env x"
  "filter is_create (first_requests env cid x) = []"
  "\<forall>q\<in>set (first_requests env cid x). is_upload q \<or> is_attach q"
  by (simp_all add: first_requests_def uploads_def)

lemma fold_sync_log:
  "\<exists>reqs. log (fold (\<lambda>(rel, fi) w'. sync_file tr env cid (path fi) rf w') sel w) = log w @ reqs
      \<and> filter is_create reqs = []
      \<and> filter is_upload reqs = selected_uploads env rf sel
      \<and> (\<forall>(rel, fi)\<in>set sel. set (first_requests env cid (sync_arg rf (path fi))) \<subseteq> set reqs)
      \<and> (\<forall>q\<in>set reqs. is_upload q \<or> is_attach q)"
proof (induction sel arbitrary: w)
  case Nil
  then show ?case by (simp add: selected_uploads_def)
next
  case (Cons x sel)
  obtain rel fi where x: "x = (rel, fi)" by (cases x)
  let ?w1 = "sync_file tr env cid (path fi) rf w"
  let ?first = "first_requests env cid (sync_arg rf (path fi))"
  obtain rest where r: "log ?w1 = log w @ ?first @ rest" "\<forall>q\<in>set rest. is_attach q"
    using sync_file_log[of tr env cid "path fi" rf w] by blast
  obtain reqs where q: "log (fold (\<lambda>(rel, fi) w'. sync_file tr env cid (path fi) rf w') sel ?w1)
        = log ?w1 @ reqs"
      "filter is_create reqs = []"
      "filter is_upload reqs = selected_uploads env rf sel"
      "\<forall>(rel, fi)\<in>set sel. set (first_requests env cid (sync_arg rf (path fi))) \<subseteq> set reqs"
      "\<forall>q\<in>set reqs. is_upload q \<or> is_attach q"
    using Cons.IH[of ?w1] by blast
  let ?all = "?first @ rest @ reqs"
  have 1: "log (fold (\<lambda>(rel, fi) w'. sync_file tr env cid (path fi) rf w') (x # sel) w)
        = log w @ ?all"
    using x r(1) q(1) by simp
  have 2: "filter is_create ?all = []"
    using q(2) filter_attach_only[OF r(2)] first_requests_filter(2) by simp
  have 3: "filter is_upload ?all = selected_uploads env rf (x # sel)"
    using q(3) filter_attach_only[OF r(2)] first_requests_filter(1) x
    by (simp add: selected_uploads_def)
  have 4: "\<forall>(rel, fi)\<in>set (x # sel). set (first_requests env cid (sync_arg rf (path fi))) \<subseteq> set ?all"
    using q(4) x by auto
  have 5: "\<forall>q\<in>set ?all. is_upload q \<or> is_attach q"
    using q(5) r(2) first_requests_filter(3)[of env cid "sync_arg rf (path fi)"] by auto
  show ?case using 1 2 3 4 5 by blast
qed

lemma dict_set_keys: "fst ` set (dict_set d k v) = insert k (fst ` set d)"
  by (induction d k v rule: dict_set.induct) auto

lemma dict_set_lookup: "map_of (dict_set d k v) k = Some v"
  by (induction d k v rule: dict_set.induct) auto

lemma dict_set_entries: "set (dict_set d k v) \<subseteq> insert (k, v) (set d)"
  by (induction d k v rule: dict_set.induct) auto

lemma ensure_collection_log:
  assumes "ensure_collection tr name rc d w = (rc', w')"
  shows "log w' = log w @ ensure_requests rc name d"
    and "fst ` set rc' = insert (JStr name) (fst ` set rc)"
    and "JStr name \<in> fst ` set rc \<Longrightarrow> rc' = rc \<and> w' = w"
    and "JStr name \<notin> fst ` set rc \<Longrightarrow>
           \<exists>w0. rc' = dict_set rc (JStr name) (fst (create_knowledge_collection tr name (auto_description d) w0))"
proof -
  show "JStr name \<in> fst ` set rc \<Longrightarrow> rc' = rc \<and> w' = w"
    using assms by (simp add: ensure_collection_def)
  show "log w' = log w @ ensure_requests rc name d"
  proof (cases "JStr name \<in> fst ` set rc")
    case True
    with assms show ?thesis by (simp add: ensure_collection_def ensure_requests_def)
  next
    case False
    obtain c w1 where c: "create_knowledge_collection tr name (auto_description d) w = (c, w1)"
      by (cases "create_knowledge_collection tr name (auto_description d) w")
    with False assms have "w' = w1"
      by (simp add: ensure_collection_def auto_description_def)
    with create_log[OF c] False show ?thesis by (simp add: ensure_requests_def)
  qed
  show "fst ` set rc' = insert (JStr name) (fst ` set rc)"
  proof (cases "JStr name \<in> fst ` set rc")
    case True
    with assms have "rc' = rc" by (simp add: ensure_collection_def)
    with True show ?thesis by auto
  next
    case False
    obtain c w1 where c: "create_knowledge_collection tr name (auto_description d) w = (c, w1)"
      by (cases "create_knowledge_collection tr name (auto_description d) w")
    with False assms have "rc' = dict_set rc (JStr name) c"
      by (simp add: ensure_collection_def auto_description_def)
    then show ?thesis by (simp only: dict_set_keys)
  qed
  show "JStr name \<notin> fst ` set rc \<Longrightarrow>
           \<exists>w0. rc' = dict_set rc (JStr name) (fst (create_knowledge_collection tr name (auto_description d) w0))"
  proof -
    assume n: "JStr name \<notin> fst ` set rc"
    obtain c w1 where c: "create_knowledge_collection tr name (auto_description d) w = (c, w1)"
      by (cases "create_knowledge_collection tr name (auto_description d) w")
    with n assms have "rc' = dict_set rc (JStr name) c"
      by (simp add: ensure_collection_def auto_description_def)
    with c show ?thesis by (metis fst_conv)
  qed
qed

lemma attempted_mono: "attempted env rf sel reqs \<Longrightarrow> set reqs \<subseteq> set reqs' \<Longrightarrow> attempted env rf sel reqs'"
  unfolding attempted_def by blast

lemma sync_collection_log:
  assumes "sync_collection tr env name lf rf rc d w = (res, rc', w')"
  shows "\<exists>rest. log w' = log w @ ensure_requests rc name d @ rest
       \<and> filter is_create rest = []
       \<and> (res = Inr () \<longrightarrow>
            filter is_upload rest = selected_uploads env rf (collection_local_files d lf)
            \<and> attempted env rf (collection_local_files d lf) rest)
       \<and> (collection_local_files d lf = [] \<longrightarrow>
            filter is_upload rest = [] \<and> filter is_attach rest = [])"
proof -
  let ?sel = "collection_local_files d lf"
  obtain rc1 w1 where e: "ensure_collection tr name rc d w = (rc1, w1)"
    by (cases "ensure_collection tr name rc d w")
  have l1: "log w1 = log w @ ensure_requests rc name d"
    using ensure_collection_log(1)[OF e] .
  show ?thesis
  proof (cases "map_of rc1 (JStr name)")
    case None
    with assms e have "res = Inl KeyError" "w' = w1" by (simp_all add: sync_collection_def)
    with l1 show ?thesis by simp
  next
    case (Some c)
    show ?thesis
    proof (cases "py_getitem c ''id''")
      case (Inl ex)
      with assms e Some have "res = Inl ex" "w' = w1" by (simp_all add: sync_collection_def)
      with l1 show ?thesis by simp
    next
      case (Inr cid)
      obtain info w2 where g: "get_knowledge_collection tr cid w1 = (info, w2)"
        by (cases "get_knowledge_collection tr cid w1")
      have l2: "log w2 = log w @ ensure_requests rc name d @ [detail_request cid]"
        using detail_log[OF g] l1 by simp
      show ?thesis
      proof (cases "collection_file_ids info")
        case (Inl ex)
        with assms e Some Inr g have "res = Inl ex" "w' = w2"
          by (simp_all add: sync_collection_def)
        with l2 show ?thesis by simp
      next
        case ids: (Inr ids)
        let ?w3 = "fold (\<lambda>(rel, fi) w'. sync_file tr env cid (path fi) rf w') ?sel w2"
        from assms e Some Inr g ids have r: "res = Inr ()" "w' = ?w3"
          by (simp_all add: sync_collection_def)
        obtain reqs where q: "log ?w3 = log w2 @ reqs"
          "filter is_create reqs = []"
          "filter is_upload reqs = selected_uploads env rf ?sel"
          "\<forall>(rel, fi)\<in>set ?sel. set (first_requests env cid (sync_arg rf (path fi))) \<subseteq> set reqs"
          using fold_sync_log[of tr env cid rf ?sel w2] by blast
        let ?rest = "detail_request cid # reqs"
        have 1: "log w' = log w @ ensure_requests rc name d @ ?rest"
          using r q(1) l2 by simp
        have 2: "filter is_create ?rest = []" using q(2) by simp
        have 3: "filter is_upload ?rest = selected_uploads env rf ?sel" using q(3) by simp
        have 4: "attempted env rf ?sel ?rest"
          unfolding attempted_def using q(4) by (intro exI[of _ cid]) auto
        have 5: "?sel = [] \<longrightarrow> filter is_upload ?rest = [] \<and> filter is_attach ?rest = []"
        proof
          assume "?sel = []"
          with q(1) have "reqs = []" by simp
          then show "filter is_upload ?rest = [] \<and> filter is_attach ?rest = []" by simp
        qed
        show ?thesis using 1 2 3 4 5 by blast
      qed
    qed
  qed
qed

lemma sync_collection_index:
  assumes "sync_collection tr env name lf rf rc d w = (res, rc', w')"
  shows "fst ` set rc' = insert (JStr name) (fst ` set rc)"
    and "JStr name \<in> fst ` set rc \<Longrightarrow> rc' = rc"
    and "JStr name \<notin> fst ` set rc \<Longrightarrow>
           \<exists>w0. rc' = dict_set rc (JStr name) (fst (create_knowledge_collection tr name (auto_description d) w0))"
proof -
  obtain rc1 w1 where e: "ensure_collection tr name rc d w = (rc1, w1)"
    by (cases "ensure_collection tr name rc d w")
  with assms have "rc' = rc1"
    by (auto simp: sync_collection_def split: option.splits sum.splits prod.splits)
  with ensure_collection_log[OF e]
  show "fst ` set rc' = insert (JStr name) (fst ` set rc)"
    and "JStr name \<in> fst ` set rc \<Longrightarrow> rc' = rc"
    and "JStr name \<notin> fst ` set rc \<Longrightarrow>
           \<exists>w0. rc' = dict_set rc (JStr name) (fst (create_knowledge_collection tr name (auto_description d) w0))"
    by simp_all
qed

lemma creates_simps [simp]:
  "creates keys [] = []"
  "creates keys ((n, item) # rest) =
     (if is_dir item then
        (if JStr (prettify_name n) \<in> set keys then creates keys rest
         else create_request (prettify_name n) (auto_description n)
              # creates (JStr (prettify_name n) # keys) rest)
      else creates keys rest)"
  by (simp_all add: creates_def)

lemma creates_cong: "set keys = set keys' \<Longrightarrow> creates keys items = creates keys' items"
proof (induction items arbitrary: keys keys')
  case Nil
  then show ?case by simp
next
  case (Cons x items)
  obtain n item where x: "x = (n, item)" by (cases x)
  have "creates (JStr (prettify_name n) # keys) items = creates (JStr (prettify_name n) # keys') items"
    using Cons.prems by (intro Cons.IH) simp
  with Cons.IH[OF Cons.prems] Cons.prems x show ?case by simp
qed

lemma sync_items_log:
  assumes "sync_items tr env lf rf items rc w = (Inr (), w')"
    and "set keys = fst ` set rc"
  shows "\<exists>reqs. log w' = log w @ reqs
       \<and> filter is_create reqs = creates keys items
       \<and> filter is_upload reqs = all_uploads env rf lf items
       \<and> (\<forall>(n, item)\<in>set items. is_dir item \<longrightarrow>
            attempted env rf (collection_local_files n lf) reqs)"
  using assms
proof (induction items arbitrary: rc w keys)
  case Nil
  then show ?case by (simp add: all_uploads_def)
next
  case (Cons x items)
  obtain n item where x: "x = (n, item)" by (cases x)
  show ?case
  proof (cases "is_dir item")
    case False
    with Cons.prems x have "sync_items tr env lf rf items rc w = (Inr (), w')" by simp
    from Cons.IH[OF this Cons.prems(2)] False x show ?thesis
      by (auto simp: all_uploads_def)
  next
    case True
    let ?name = "prettify_name n"
    obtain res rc1 w1 where sc: "sync_collection tr env ?name lf rf rc n w = (res, rc1, w1)"
      by (cases "sync_collection tr env ?name lf rf rc n w") auto
    with Cons.prems(1) x True have res: "res = Inr ()"
      and rest: "sync_items tr env lf rf items rc1 w1 = (Inr (), w')"
      by (auto split: sum.splits)
    obtain r1 where r1: "log w1 = log w @ ensure_requests rc ?name n @ r1"
      "filter is_create r1 = []"
      "filter is_upload r1 = selected_uploads env rf (collection_local_files n lf)"
      "attempted env rf (collection_local_files n lf) r1"
      using sync_collection_log[OF sc] res by blast
    have keys1: "set (JStr ?name # keys) = fst ` set rc1"
      using sync_collection_index(1)[OF sc] Cons.prems(2) by simp
    obtain r2 where r2: "log w' = log w1 @ r2"
      "filter is_create r2 = creates (JStr ?name # keys) items"
      "filter is_upload r2 = all_uploads env rf lf items"
      "\<forall>(n, item)\<in>set items. is_dir item \<longrightarrow> attempted env rf (collection_local_files n lf) r2"
      using Cons.IH[OF rest keys1] by blast
    let ?reqs = "ensure_requests rc ?name n @ r1 @ r2"
    have 1: "log w' = log w @ ?reqs" using r1(1) r2(1) by simp
    have 2: "filter is_create ?reqs = creates keys (x # items)"
    proof (cases "JStr ?name \<in> set keys")
      case in_keys: True
      then have "set (JStr ?name # keys) = set keys" by auto
      then have "creates (JStr ?name # keys) items = creates keys items" by (rule creates_cong)
      with in_keys Cons.prems(2) r1(2) r2(2) x True show ?thesis
        by (simp add: ensure_requests_def)
    next
      case False
      with Cons.prems(2) r1(2) r2(2) x True show ?thesis
        by (simp add: ensure_requests_def)
    qed
    have 3: "filter is_upload ?reqs = all_uploads env rf lf (x # items)"
      using r1(3) r2(3) x True by (simp add: ensure_requests_def all_uploads_def)
    have 4: "\<forall>(n, item)\<in>set (x # items). is_dir item \<longrightarrow>
            attempted env rf (collection_local_files n lf) ?reqs"
    proof -
      have "attempted env rf (collection_local_files n lf) ?reqs"
        using r1(4) by (rule attempted_mono) auto
      moreover have "\<forall>(n, item)\<in>set items. is_dir item \<longrightarrow>
            attempted env rf (collection_local_files n lf) ?reqs"
        using r2(4) attempted_mono[where reqs = r2 and reqs' = ?reqs] by fastforce
      ultimately show ?thesis using x by simp
    qed
    show ?thesis using 1 2 3 4 by blast
  qed
qed

lemma creations_names:
  "set (map fst (creations keys items))
     = {prettify_name n |n item. (n, item) \<in> set items \<and> is_dir item
                                \<and> JStr (prettify_name n) \<notin> set keys}"
proof (induction items arbitrary: keys)
  case Nil
  then show ?case by simp
next
  case (Cons x items)
  obtain n item where x: "x = (n, item)" by (cases x)
  show ?case
  proof (cases "is_dir item \<and> JStr (prettify_name n) \<notin> set keys")
    case True
    have "set (map fst (creations keys (x # items)))
        = insert (prettify_name n) (set (map fst (creations (JStr (prettify_name n) # keys) items)))"
      using True x by simp
    also have "\<dots> = insert (prettify_name n)
        {prettify_name m |m item. (m, item) \<in> set items \<and> is_dir item
                                \<and> JStr (prettify_name m) \<notin> set (JStr (prettify_name n) # keys)}"
      by (simp only: Cons.IH)
    also have "\<dots> = {prettify_name m |m item'. (m, item') \<in> set (x # items) \<and> is_dir item'
                                \<and> JStr (prettify_name m) \<notin> set keys}"
      using True x by auto
    finally show ?thesis .
  next
    case False
    have "set (map fst (creations keys (x # items))) = set (map fst (creations keys items))"
      using False x by auto
    also have "\<dots> = {prettify_name m |m item. (m, item) \<in> set items \<and> is_dir item
                                \<and> JStr (prettify_name m) \<notin> set keys}"
      by (simp only: Cons.IH)
    also have "\<dots> = {prettify_name m |m item'. (m, item') \<in> set (x # items) \<and> is_dir item'
                                \<and> JStr (prettify_name m) \<notin> set keys}"
      using False x by auto
    finally show ?thesis .
  qed
qed

lemma creations_distinct: "distinct (map fst (creations keys items))"
proof (induction items arbitrary: keys)
  case Nil
  then show ?case by simp
next
  case (Cons x items)
  obtain n item where x: "x = (n, item)" by (cases x)
  have "prettify_name n \<notin> set (map fst (creations (JStr (prettify_name n) # keys) items))"
    unfolding creations_names by simp
  with Cons.IH x show ?case by simp
qed

text \<open>
  Claim C3. When the reconciler processes a directory whose prettified name is not in the
  collection index, the first thing it sends is the request that creates the collection,
  and it sends no other create request; when the name is in the index it sends none.
  With no local file selected for the directory, no upload and no attach is sent, so the
  collection of a directory without supported files is still created. Over a run that
  completes, one collection is created for each prettified name of a top-level directory
  that is not in the index, and none for a name that is.
\<close>

theorem sync_collection_creates_when_absent:
  "(sync_collection tr env name lf rf rc d w = (res, rc', w') \<longrightarrow>
      (\<exists>rest. log w' = log w @ (if JStr name \<in> fst ` set rc then []
                                else [create_request name (auto_description d)]) @ rest
         \<and> filter is_create rest = []
         \<and> (collection_local_files d lf = [] \<longrightarrow>
              filter is_upload rest = [] \<and> filter is_attach rest = [])))
   \<and> (sync_items tr env lf rf items rc w = (Inr (), w') \<longrightarrow>
      (\<exists>reqs. log w' = log w @ reqs
         \<and> filter is_create reqs
             = map (\<lambda>(name, d). create_request name (auto_description d))
                   (creations (map fst rc) items)))
   \<and> distinct (map fst (creations keys items))
   \<and> set (map fst (creations keys items))
       = {prettify_name n |n item. (n, item) \<in> set items \<and> is_dir item
                                  \<and> JStr (prettify_name n) \<notin> set keys}"
proof (intro conjI impI)
  assume "sync_collection tr env name lf rf rc d w = (res, rc', w')"
  from sync_collection_log[OF this]
  show "\<exists>rest. log w' = log w @ (if JStr name \<in> fst ` set rc then []
                                else [create_request name (auto_description d)]) @ rest
         \<and> filter is_create rest = []
         \<and> (collection_local_files d lf = [] \<longrightarrow>
              filter is_upload rest = [] \<and> filter is_attach rest = [])"
    unfolding ensure_requests_def by blast
next
  assume "sync_items tr env lf rf items rc w = (Inr (), w')"
  from sync_items_log[OF this, of "map fst rc"]
  show "\<exists>reqs. log w' = log w @ reqs
         \<and> filter is_create reqs
             = map (\<lambda>(name, d). create_request name (auto_description d))
                   (creations (map fst rc) items)"
    unfolding creates_def by auto
next
  show "distinct (map fst (creations keys items))" by (rule creations_distinct)
next
  show "set (map fst (creations keys items))
       = {prettify_name n |n item. (n, item) \<in> set items \<and> is_dir item
                                  \<and> JStr (prettify_name n) \<notin> set keys}"
    by (rule creations_names)
qed

text \<open>
  Claim C2 does not hold of the code. The remote service fails the request that creates
  the collection of the first directory: the client returns the empty dict,
  \<^verbatim>\<open>sync_collection\<close> reads its \<open>id\<close>, and the \<^verbatim>\<open>KeyError\<close> leaves the loop over the
  directories. The second directory is never processed and the exit status is 1.
\<close>

theorem create_failure_aborts_run:
  "sync_knowledge demo_sha256 (service_tr [create_request ''Alpha'' (auto_description ''alpha'')])
      kb_env ''/kb'' alpha_beta empty_service
     = (Inl KeyError,
        \<lparr>log = [(GET, Files, NoBody), (GET, Knowledge, NoBody),
                create_request ''Alpha'' (auto_description ''alpha'')],
         remote = remote empty_service\<rparr>)
   \<and> fst (main demo_sha256 (service_tr [create_request ''Alpha'' (auto_description ''alpha'')])
             kb_env (Some demo_config) ''/kb'' (Some alpha_beta) empty_service) = 1"
  by code_simp

theorem sync_collection_creates_when_absent_witness:
  "(\<exists>rest. log (snd (snd (sync_collection (service_tr []) kb_env ''Empty Dir'' other_files [] []
                              ''empty_dir'' empty_service)))
            = [create_request ''Empty Dir'' (auto_description ''empty_dir'')] @ rest
         \<and> filter is_create rest = [] \<and> filter is_upload rest = [] \<and> filter is_attach rest = [])
   \<and> (\<exists>reqs. log (snd (sync_items (service_tr []) kb_env other_files []
                          [(''empty_dir'', Dir True []), (''career-data'', Dir True [])] []
                          empty_service))
            = reqs
         \<and> filter is_create reqs
             = [create_request ''Empty Dir'' (auto_description ''empty_dir''),
                create_request ''Career Data'' (auto_description ''career-data'')])"
proof -
  let ?sc = "sync_collection (service_tr []) kb_env ''Empty Dir'' other_files [] []
               ''empty_dir'' empty_service"
  let ?items = "[(''empty_dir'', Dir True []), (''career-data'', Dir True [])]"
  let ?si = "sync_items (service_tr []) kb_env other_files [] ?items [] empty_service"
  have sc: "?sc = (fst ?sc, fst (snd ?sc), snd (snd ?sc))" by simp
  have sel: "collection_local_files ''empty_dir'' other_files = []" by code_simp
  have e: "log empty_service = []" by (simp add: empty_service_def)
  have 1: "\<exists>rest. log (snd (snd ?sc))
            = [create_request ''Empty Dir'' (auto_description ''empty_dir'')] @ rest
         \<and> filter is_create rest = [] \<and> filter is_upload rest = [] \<and> filter is_attach rest = []"
    using conjunct1 [OF sync_collection_creates_when_absent
        [of "service_tr []" kb_env "''Empty Dir''" other_files "[]" "[]" "''empty_dir''"
            empty_service "fst ?sc" "fst (snd ?sc)" "snd (snd ?sc)"]] sc sel e
    by simp
  have r: "fst ?si = Inr ()" by code_simp
  then have si: "?si = (Inr (), snd ?si)" by (metis prod.collapse)
  have c: "creations (map fst ([] :: remote_collections)) ?items
         = [(''Empty Dir'', ''empty_dir''), (''Career Data'', ''career-data'')]"
    by code_simp
  have "?si = (Inr (), snd ?si) \<longrightarrow>
      (\<exists>reqs. log (snd ?si) = log empty_service @ reqs
         \<and> filter is_create reqs
             = map (\<lambda>(name, d). create_request name (auto_description d))
                   (creations (map fst ([] :: remote_collections)) ?items))"
    by (rule conjunct1 [OF conjunct2 [OF sync_collection_creates_when_absent
        [of "service_tr []" kb_env _ other_files "[]" "[]" _ empty_service _ _ "snd ?si" ?items]]])
  with si have "\<exists>reqs. log (snd ?si) = log empty_service @ reqs
         \<and> filter is_create reqs
             = map (\<lambda>(name, d). create_request name (auto_description d))
                   (creations (map fst ([] :: remote_collections)) ?items)"
    by (rule rev_mp)
  then have 2: "\<exists>reqs. log (snd ?si) = reqs
         \<and> filter is_create reqs
             = [create_request ''Empty Dir'' (auto_description ''empty_dir''),
                create_request ''Career Data'' (auto_description ''career-data'')]"
    unfolding c e by (simp del: sync_items.simps)
  show ?thesis using 1 2 by blast
qed

subsection \<open>Files in the scan root\<close>

lemma scan_filenames_keys:
  "scan_filenames sha d root fs acc = Inr lf \<Longrightarrow>
   fst ` set acc \<subseteq> fst ` set lf
   \<and> (\<forall>f\<in>set fs. is_supported_file (fst f) (fst (snd f)) = Inr True
          \<longrightarrow> join os_sep (root @ [fst f]) \<in> fst ` set lf)"
proof (induction fs arbitrary: acc)
  case Nil
  then show ?case by simp
next
  case (Cons f fs)
  obtain n st c where f: "f = (n, st, c)" by (cases f)
  show ?case
  proof (cases "is_supported_file n st = Inr True")
    case False
    with Cons.prems f have "scan_filenames sha d root fs acc = Inr lf"
      by (auto simp: Let_def split: sum.splits bool.splits)
    from Cons.IH[OF this] False f show ?thesis by simp
  next
    case True
    let ?rel = "join os_sep (root @ [n])"
    from True Cons.prems f obtain h where
      r: "scan_filenames sha d root fs
                (dict_set acc ?rel \<lparr>path = d @ os_sep @ ?rel, hash = h\<rparr>) = Inr lf"
      by (auto simp: Let_def split: sum.splits)
    from Cons.IH[OF r] have a:
      "fst ` set (dict_set acc ?rel \<lparr>path = d @ os_sep @ ?rel, hash = h\<rparr>) \<subseteq> fst ` set lf"
      and b: "\<forall>f\<in>set fs. is_supported_file (fst f) (fst (snd f)) = Inr True
          \<longrightarrow> join os_sep (root @ [fst f]) \<in> fst ` set lf"
      by blast+
    from a have "insert ?rel (fst ` set acc) \<subseteq> fst ` set lf"
      by (simp only: dict_set_keys)
    with b f show ?thesis by simp
  qed
qed

lemma scan_walk_keys:
  "scan_walk sha d xs acc = Inr lf \<Longrightarrow>
   fst ` set acc \<subseteq> fst ` set lf
   \<and> (\<forall>x\<in>set xs. \<forall>f\<in>set (snd x). is_supported_file (fst f) (fst (snd f)) = Inr True
          \<longrightarrow> join os_sep (fst x @ [fst f]) \<in> fst ` set lf)"
proof (induction xs arbitrary: acc)
  case Nil
  then show ?case by simp
next
  case (Cons x xs)
  obtain root fs where x: "x = (root, fs)" by (cases x)
  with Cons.prems obtain acc' where a: "scan_filenames sha d root fs acc = Inr acc'"
    and r: "scan_walk sha d xs acc' = Inr lf"
    by (auto split: sum.splits)
  from scan_filenames_keys[OF a] have a1: "fst ` set acc \<subseteq> fst ` set acc'"
    and a2: "\<forall>f\<in>set fs. is_supported_file (fst f) (fst (snd f)) = Inr True
          \<longrightarrow> join os_sep (root @ [fst f]) \<in> fst ` set acc'"
    by blast+
  from Cons.IH[OF r] have b1: "fst ` set acc' \<subseteq> fst ` set lf"
    and b2: "\<forall>x\<in>set xs. \<forall>f\<in>set (snd x). is_supported_file (fst f) (fst (snd f)) = Inr True
          \<longrightarrow> join os_sep (fst x @ [fst f]) \<in> fst ` set lf"
    by blast+
  have 1: "fst ` set acc \<subseteq> fst ` set lf" using a1 b1 by blast
  have 2: "\<forall>f\<in>set fs. is_supported_file (fst f) (fst (snd f)) = Inr True
          \<longrightarrow> join os_sep (root @ [fst f]) \<in> fst ` set lf"
    using a2 b1 by blast
  show ?case using 1 2 b2 x by simp
qed

lemma files_in_mem: "(f, File st c) \<in> set entries \<Longrightarrow> (f, st, c) \<in> set (files_in entries)"
  by (induction entries rule: files_in.induct) auto

lemma root_file_scanned:
  assumes "get_local_files sha base (Dir True entries) = Inr lf"
    and "(f, File st c) \<in> set entries" and "is_supported_file f st = Inr True"
  shows "f \<in> fst ` set lf"
proof -
  have m: "(f, st, c) \<in> set (files_in entries)" using assms(2) by (rule files_in_mem)
  have w: "([], files_in entries) \<in> set (os_walk [] (Dir True entries))" by simp
  from assms(1) have "scan_walk sha base (os_walk [] (Dir True entries)) [] = Inr lf"
    by (simp only: get_local_files_def)
  from scan_walk_keys[OF this] have
    "\<forall>x\<in>set (os_walk [] (Dir True entries)). \<forall>f\<in>set (snd x).
        is_supported_file (fst f) (fst (snd f)) = Inr True
          \<longrightarrow> join os_sep (fst x @ [fst f]) \<in> fst ` set lf"
    by blast
  from bspec[OF this w] have
    "\<forall>f\<in>set (files_in entries). is_supported_file (fst f) (fst (snd f)) = Inr True
          \<longrightarrow> join os_sep ([] @ [fst f]) \<in> fst ` set lf"
    by simp
  from bspec[OF this m] assms(3) show ?thesis by simp
qed

lemma no_separator_not_selected:
  assumes "CHR ''/'' \<notin> set rel"
  shows "\<not> startswith rel (d @ os_sep)"
proof
  assume "startswith rel (d @ os_sep)"
  then have "take (length (d @ os_sep)) rel = d @ os_sep" by (simp only: startswith_def)
  moreover have "CHR ''/'' \<in> set (d @ os_sep)" by (simp add: os_sep_def)
  ultimately have "CHR ''/'' \<in> set (take (length (d @ os_sep)) rel)" by simp
  then have "CHR ''/'' \<in> set rel" by (rule in_set_takeD)
  with assms show False by simp
qed

lemma collection_local_files_below:
  "collection_local_files d (filter (\<lambda>(rel, fi). CHR ''/'' \<in> set rel) lf)
     = collection_local_files d lf"
proof (induction lf)
  case Nil
  then show ?case by (simp add: collection_local_files_def)
next
  case (Cons x lf)
  obtain rel fi where x: "x = (rel, fi)" by (cases x)
  show ?case
  proof (cases "CHR ''/'' \<in> set rel")
    case True
    with Cons x show ?thesis by (simp add: collection_local_files_def)
  next
    case False
    then have "\<not> startswith rel (d @ os_sep)" by (rule no_separator_not_selected)
    with False Cons x show ?thesis by (simp add: collection_local_files_def)
  qed
qed

lemma sync_collection_below:
  "sync_collection tr env name (filter (\<lambda>(rel, fi). CHR ''/'' \<in> set rel) lf) rf rc d w
     = sync_collection tr env name lf rf rc d w"
  by (simp only: sync_collection_def collection_local_files_below)

lemma sync_items_below:
  "sync_items tr env (filter (\<lambda>(rel, fi). CHR ''/'' \<in> set rel) lf) rf items rc w
     = sync_items tr env lf rf items rc w"
proof (induction items arbitrary: rc w)
  case Nil
  then show ?case by simp
next
  case (Cons x items)
  obtain n item where x: "x = (n, item)" by (cases x)
  let ?lf = "filter (\<lambda>(rel, fi). CHR ''/'' \<in> set rel) lf"
  show ?case
  proof (cases "is_dir item")
    case False
    with x Cons.IH show ?thesis by simp
  next
    case True
    obtain res rc1 w1 where
      sc: "sync_collection tr env (prettify_name n) lf rf rc n w = (res, rc1, w1)"
      by (cases "sync_collection tr env (prettify_name n) lf rf rc n w") auto
    then have sc': "sync_collection tr env (prettify_name n) ?lf rf rc n w = (res, rc1, w1)"
      by (simp only: sync_collection_below)
    show ?thesis
    proof (cases res)
      case (Inl e)
      with x True sc sc' show ?thesis by simp
    next
      case (Inr u)
      with x True sc sc' Cons.IH[of rc1 w1] show ?thesis by simp
    qed
  qed
qed

text \<open>
  Claim C9. A supported file that lies directly in the scan root is in the result of the
  scan, under its name. A local file whose relative path has no separator is selected for
  no directory, and the reconciler does exactly what it does on the scan result without
  these files: nothing is uploaded or attached for them.
\<close>

theorem root_files_never_synced:
  "(get_local_files sha256 base (Dir True entries) = Inr lf
      \<and> (f, File st content) \<in> set entries \<and> is_supported_file f st = Inr True
     \<longrightarrow> f \<in> fst ` set lf)
   \<and> (CHR ''/'' \<notin> set rel \<longrightarrow> (rel, fi) \<notin> set (collection_local_files d lf))
   \<and> sync_items tr env lf rf items rc w
       = sync_items tr env (filter (\<lambda>(rel, fi). CHR ''/'' \<in> set rel) lf) rf items rc w"
proof (intro conjI impI)
  assume "get_local_files sha256 base (Dir True entries) = Inr lf
      \<and> (f, File st content) \<in> set entries \<and> is_supported_file f st = Inr True"
  then show "f \<in> fst ` set lf" using root_file_scanned by blast
next
  assume "CHR ''/'' \<notin> set rel"
  then have "\<not> startswith rel (d @ os_sep)" by (rule no_separator_not_selected)
  then show "(rel, fi) \<notin> set (collection_local_files d lf)"
    by (simp add: collection_local_files_def)
next
  show "sync_items tr env lf rf items rc w
       = sync_items tr env (filter (\<lambda>(rel, fi). CHR ''/'' \<in> set rel) lf) rf items rc w"
    by (rule sync_items_below[symmetric])
qed

theorem root_files_never_synced_witness:
  "''top.md'' \<in> fst ` set root_file_scan
   \<and> (''top.md'', \<lparr>path = ''/kb/top.md'', hash = ''sha256:abc''\<rparr>)
       \<notin> set (collection_local_files ''career-data'' root_file_scan)"
proof -
  have g: "get_local_files demo_sha256 ''/kb'' (Dir True root_file_entries) = Inr root_file_scan"
    by code_simp
  have m: "(''top.md'', File (Some 3) (Some ''abc'')) \<in> set root_file_entries"
    by (simp add: root_file_entries_def)
  have s: "is_supported_file ''top.md'' (Some 3) = Inr True" by code_simp
  have n: "CHR ''/'' \<notin> set ''top.md''" by simp
  have 1: "''top.md'' \<in> fst ` set root_file_scan"
    using conjunct1 [OF root_files_never_synced
        [of demo_sha256 "''/kb''" root_file_entries root_file_scan "''top.md''" "Some 3"
            "Some ''abc''"]] g m s
    by blast
  have 2: "(''top.md'', \<lparr>path = ''/kb/top.md'', hash = ''sha256:abc''\<rparr>)
       \<notin> set (collection_local_files ''career-data'' root_file_scan)"
    using conjunct1 [OF conjunct2 [OF root_files_never_synced
        [of _ _ _ root_file_scan _ _ _ "''top.md''"
            "\<lparr>path = ''/kb/top.md'', hash = ''sha256:abc''\<rparr>" "''career-data''"]]] n
    by blast
  show ?thesis using 1 2 by blast
qed

subsection \<open>Runs that complete\<close>

lemma get_remote_files_log:
  "get_remote_files tr w = (rf, w1) \<Longrightarrow> log w1 = log w @ [(GET, Files, NoBody)]"
proof -
  assume a: "get_remote_files tr w = (rf, w1)"
  obtain ro w' where m: "make_request tr (GET, Files, NoBody) w = (ro, w')"
    by (cases "make_request tr (GET, Files, NoBody) w")
  with a have "w1 = w'"
    by (auto simp: get_remote_files_def get_files_def split: sum.splits)
  with log_make_request'[OF m] show ?thesis by simp
qed

lemma get_remote_collections_log:
  "get_remote_collections tr w = (rc, w1) \<Longrightarrow> log w1 = log w @ [(GET, Knowledge, NoBody)]"
proof -
  assume a: "get_remote_collections tr w = (rc, w1)"
  obtain ro w' where m: "make_request tr (GET, Knowledge, NoBody) w = (ro, w')"
    by (cases "make_request tr (GET, Knowledge, NoBody) w")
  with a have "w1 = w'"
    by (auto simp: get_remote_collections_def get_knowledge_collections_def split: sum.splits)
  with log_make_request'[OF m] show ?thesis by simp
qed

lemma sync_collection_completes:
  assumes idx: "\<forall>x\<in>set rc. has_id (snd x)"
    and cr: "JStr name \<in> fst ` set rc
             \<or> (\<forall>d w. has_id (fst (create_knowledge_collection tr name d w)))"
    and det: "\<forall>cid w. detail_ok (fst (get_knowledge_collection tr cid w))"
  shows "\<exists>rc' w'. sync_collection tr env name lf rf rc d w = (Inr (), rc', w')
           \<and> (\<forall>x\<in>set rc'. has_id (snd x)) \<and> fst ` set rc \<subseteq> fst ` set rc'"
proof -
  obtain rc1 w1 where e: "ensure_collection tr name rc d w = (rc1, w1)"
    by (cases "ensure_collection tr name rc d w")
  have keys: "fst ` set rc \<subseteq> fst ` set rc1"
    using ensure_collection_log(2)[OF e] by blast
  have "\<exists>c. map_of rc1 (JStr name) = Some c \<and> has_id c \<and> (\<forall>x\<in>set rc1. has_id (snd x))"
  proof (cases "JStr name \<in> fst ` set rc")
    case True
    then have rc1: "rc1 = rc" using ensure_collection_log(3)[OF e] by simp
    from True obtain c where c: "map_of rc (JStr name) = Some c"
      by (metis map_of_eq_None_iff not_Some_eq)
    then have "(JStr name, c) \<in> set rc" by (rule map_of_SomeD)
    with idx have "has_id c" by fastforce
    with c rc1 idx show ?thesis by simp
  next
    case False
    then obtain w0 where rc1: "rc1 = dict_set rc (JStr name)
        (fst (create_knowledge_collection tr name (auto_description d) w0))"
      using ensure_collection_log(4)[OF e] by blast
    let ?c = "fst (create_knowledge_collection tr name (auto_description d) w0)"
    have h: "has_id ?c" using cr False by blast
    have "map_of rc1 (JStr name) = Some ?c" unfolding rc1 by (rule dict_set_lookup)
    moreover have "\<forall>x\<in>set rc1. has_id (snd x)"
      using dict_set_entries[of rc "JStr name" ?c] idx h unfolding rc1 by fastforce
    ultimately show ?thesis using h by blast
  qed
  then obtain c where c: "map_of rc1 (JStr name) = Some c" "has_id c"
    and idx1: "\<forall>x\<in>set rc1. has_id (snd x)" by blast
  from c(2) obtain cid where cid: "py_getitem c ''id'' = Inr cid"
    by (auto simp: has_id_def split: sum.splits)
  obtain info w2 where g: "get_knowledge_collection tr cid w1 = (info, w2)"
    by (cases "get_knowledge_collection tr cid w1")
  have "detail_ok info" using det g by (metis fst_conv)
  then obtain ids where ids: "collection_file_ids info = Inr ids"
    by (auto simp: detail_ok_def split: sum.splits)
  have "fst (sync_collection tr env name lf rf rc d w) = Inr ()"
       "fst (snd (sync_collection tr env name lf rf rc d w)) = rc1"
    using e c(1) cid g ids by (simp_all add: sync_collection_def)
  then have "sync_collection tr env name lf rf rc d w
      = (Inr (), rc1, snd (snd (sync_collection tr env name lf rf rc d w)))"
    by (metis prod.collapse)
  with idx1 keys show ?thesis by blast
qed

lemma sync_items_completes:
  assumes "\<forall>x\<in>set rc. has_id (snd x)"
    and "\<forall>x\<in>set items. is_dir (snd x) \<longrightarrow>
           JStr (prettify_name (fst x)) \<in> fst ` set rc
           \<or> (\<forall>d w. has_id (fst (create_knowledge_collection tr (prettify_name (fst x)) d w)))"
    and det: "\<forall>cid w. detail_ok (fst (get_knowledge_collection tr cid w))"
  shows "fst (sync_items tr env lf rf items rc w) = Inr ()"
  using assms(1,2)
proof (induction items arbitrary: rc w)
  case Nil
  then show ?case by simp
next
  case (Cons x items)
  obtain n item where x: "x = (n, item)" by (cases x)
  show ?case
  proof (cases "is_dir item")
    case False
    have "fst (sync_items tr env lf rf items rc w) = Inr ()"
      using Cons.prems by (intro Cons.IH) simp_all
    with False x show ?thesis by simp
  next
    case True
    have cr: "JStr (prettify_name n) \<in> fst ` set rc
             \<or> (\<forall>d w. has_id (fst (create_knowledge_collection tr (prettify_name n) d w)))"
      using Cons.prems(2) x True by simp
    obtain rc1 w1 where sc: "sync_collection tr env (prettify_name n) lf rf rc n w = (Inr (), rc1, w1)"
      and idx1: "\<forall>x\<in>set rc1. has_id (snd x)" and keys: "fst ` set rc \<subseteq> fst ` set rc1"
      using sync_collection_completes[OF Cons.prems(1) cr det] by blast
    have rest: "\<forall>x\<in>set items. is_dir (snd x) \<longrightarrow>
           JStr (prettify_name (fst x)) \<in> fst ` set rc1
           \<or> (\<forall>d w. has_id (fst (create_knowledge_collection tr (prettify_name (fst x)) d w)))"
    proof (intro ballI impI)
      fix y assume y: "y \<in> set items" "is_dir (snd y)"
      then have "JStr (prettify_name (fst y)) \<in> fst ` set rc
           \<or> (\<forall>d w. has_id (fst (create_knowledge_collection tr (prettify_name (fst y)) d w)))"
        using Cons.prems(2) by simp
      then show "JStr (prettify_name (fst y)) \<in> fst ` set rc1
           \<or> (\<forall>d w. has_id (fst (create_knowledge_collection tr (prettify_name (fst y)) d w)))"
        using keys by blast
    qed
    have "fst (sync_items tr env lf rf items rc1 w1) = Inr ()"
      using idx1 rest by (rule Cons.IH)
    with sc x True show ?thesis by simp
  qed
qed

lemma failed_upload_not_attached:
  assumes "isfile env p" and "upload_file tr env p w = (JObj [], w1)"
  shows "add_file_to_knowledge tr env cid (JStr p) w = (Inr False, w1)"
  using assms by (simp add: add_file_to_knowledge_def is_local_file_def path_of_def)

text \<open>
  Claim C7. Nothing is assumed about what the uploads answer: they may all fail. When the
  config and the scan are good and the remote service answers the create, detail and
  listing requests with ids, the process ends with status 0, the uploads it sent are
  those of every selected file of every directory that has no remote match, and for each
  directory the first request of every selected file is among the requests sent. An
  upload that comes back empty makes the dual-mode attach return false, with no attach
  request and no exception.
\<close>

theorem upload_failure_does_not_stop_sync:
  assumes cfg: "client_init config = Inr ()"
    and scan: "get_local_files sha256 base_dir (Dir True items) = Inr lf"
    and cr: "\<forall>name d w. has_id (fst (create_knowledge_collection tr name d w))"
    and det: "\<forall>cid w. detail_ok (fst (get_knowledge_collection tr cid w))"
    and lst: "\<forall>w. \<forall>x\<in>set (fst (get_remote_collections tr w)). has_id (snd x)"
  shows "(\<exists>reqs w'. main sha256 tr env (Some config) base_dir (Some (Dir True items)) w = (0, w')
           \<and> log w' = log w @ reqs
           \<and> filter is_upload reqs = all_uploads env (fst (get_remote_files tr w)) lf items
           \<and> (\<forall>x\<in>set items. is_dir (snd x) \<longrightarrow>
                 attempted env (fst (get_remote_files tr w))
                   (collection_local_files (fst x) lf) reqs))
         \<and> (isfile env p \<and> upload_file tr env p w0 = (JObj [], w1)
              \<longrightarrow> add_file_to_knowledge tr env cid (JStr p) w0 = (Inr False, w1))"
proof (intro conjI impI)
  obtain rf wa where f: "get_remote_files tr w = (rf, wa)"
    by (cases "get_remote_files tr w")
  obtain rc wb where c: "get_remote_collections tr wa = (rc, wb)"
    by (cases "get_remote_collections tr wa")
  have la: "log wa = log w @ [(GET, Files, NoBody)]" using f by (rule get_remote_files_log)
  have lb: "log wb = log wa @ [(GET, Knowledge, NoBody)]"
    using c by (rule get_remote_collections_log)
  have idx: "\<forall>x\<in>set rc. has_id (snd x)" using lst c by (metis fst_conv)
  have names: "\<forall>x\<in>set items. is_dir (snd x) \<longrightarrow>
           JStr (prettify_name (fst x)) \<in> fst ` set rc
           \<or> (\<forall>d w. has_id (fst (create_knowledge_collection tr (prettify_name (fst x)) d w)))"
    using cr by blast
  have completes: "fst (sync_items tr env lf rf items rc wb) = Inr ()"
    using idx names det by (rule sync_items_completes)
  obtain w' where si: "sync_items tr env lf rf items rc wb = (Inr (), w')"
    using completes by (metis prod.collapse)
  obtain reqs where r: "log w' = log wb @ reqs"
    "filter is_upload reqs = all_uploads env rf lf items"
    "\<forall>(n, item)\<in>set items. is_dir item \<longrightarrow> attempted env rf (collection_local_files n lf) reqs"
    using sync_items_log[OF si, of "map fst rc"] by auto
  let ?all = "[(GET, Files, NoBody), (GET, Knowledge, NoBody)] @ reqs"
  have sk: "sync_knowledge sha256 tr env base_dir (Dir True items) w = (Inr (), w')"
    using scan f c si by (simp add: sync_knowledge_def)
  have 1: "main sha256 tr env (Some config) base_dir (Some (Dir True items)) w = (0, w')"
    using cfg sk by (simp add: main_def)
  have 2: "log w' = log w @ ?all" using la lb r(1) by simp
  have 3: "filter is_upload ?all = all_uploads env (fst (get_remote_files tr w)) lf items"
    using r(2) f by simp
  have 4: "\<forall>x\<in>set items. is_dir (snd x) \<longrightarrow>
             attempted env (fst (get_remote_files tr w)) (collection_local_files (fst x) lf) ?all"
  proof (intro ballI impI)
    fix x assume x: "x \<in> set items" "is_dir (snd x)"
    then have "attempted env rf (collection_local_files (fst x) lf) reqs"
      using r(3) by (cases x) auto
    then have "attempted env rf (collection_local_files (fst x) lf) ?all"
      by (rule attempted_mono) auto
    with f show "attempted env (fst (get_remote_files tr w)) (collection_local_files (fst x) lf) ?all"
      by simp
  qed
  show "\<exists>reqs w'. main sha256 tr env (Some config) base_dir (Some (Dir True items)) w = (0, w')
           \<and> log w' = log w @ reqs
           \<and> filter is_upload reqs = all_uploads env (fst (get_remote_files tr w)) lf items
           \<and> (\<forall>x\<in>set items. is_dir (snd x) \<longrightarrow>
                 attempted env (fst (get_remote_files tr w))
                   (collection_local_files (fst x) lf) reqs)"
    using 1 2 3 4 by blast
next
  assume "isfile env p \<and> upload_file tr env p w0 = (JObj [], w1)"
  then show "add_file_to_knowledge tr env cid (JStr p) w0 = (Inr False, w1)"
    using failed_upload_not_attached by blast
qed

lemma service_tr_serves:
  "\<forall>q\<in>set down. is_upload q \<Longrightarrow> \<not> is_upload req \<Longrightarrow> service_tr down req s = serve req s"
  by (auto simp: service_tr_def)

lemma json_or_empty_ok: "json_or_empty (ok v) = v"
  by (simp add: json_or_empty_def ok_def raise_for_status_def)

lemma list_or_empty_ok: "list_or_empty (ok (JArr xs)) = JArr xs"
  by (simp add: list_or_empty_def ok_def raise_for_status_def)

lemma has_id_coll_json: "has_id (coll_json c)"
  by (simp add: has_id_def coll_json_def)

lemma service_creates:
  assumes "\<forall>q\<in>set down. is_upload q"
  shows "has_id (fst (create_knowledge_collection (service_tr down) name d w))"
proof -
  let ?req = "(POST, Knowledge,
               JsonBody (JObj [(''name'', JStr name), (''description'', JStr d)]))"
  have "service_tr down ?req (remote w) = serve ?req (remote w)"
    using assms by (rule service_tr_serves) simp
  then have "fst (create_knowledge_collection (service_tr down) name d w)
      = coll_json (''c-'' @ name, name)"
    by (simp add: create_knowledge_collection_def make_request_def json_or_empty_ok)
  then show ?thesis by (simp only: has_id_coll_json)
qed

lemma ids_of_links: "ids_of (map link_json ls) = Inr (map (\<lambda>l. JStr (snd l)) ls)"
  by (induction ls) (simp_all add: link_json_def)

lemma service_details:
  assumes "\<forall>q\<in>set down. is_upload q"
  shows "detail_ok (fst (get_knowledge_collection (service_tr down) cid w))"
proof -
  let ?req = "(GET, KnowledgeId cid, NoBody)"
  let ?ls = "filter (\<lambda>l. fst l = cid) (links (remote w))"
  have "service_tr down ?req (remote w) = serve ?req (remote w)"
    using assms by (rule service_tr_serves) simp
  then have "fst (get_knowledge_collection (service_tr down) cid w)
      = JObj [(''id'', cid), (''files'', JArr (map link_json ?ls))]"
    by (simp add: get_knowledge_collection_def make_request_def json_or_empty_ok)
  moreover have "collection_file_ids (JObj [(''id'', cid), (''files'', JArr (map link_json ?ls))])
      = Inr (set (map (\<lambda>l. JStr (snd l)) ?ls))"
    by (simp add: collection_file_ids_def ids_of_links)
  ultimately show ?thesis by (simp add: detail_ok_def)
qed

lemma index_collections_values:
  "\<forall>x\<in>set acc. has_id (snd x) \<Longrightarrow> \<forall>c\<in>set cs. has_id c \<Longrightarrow>
   \<forall>x\<in>set (index_collections cs acc). has_id (snd x)"
proof (induction cs arbitrary: acc)
  case Nil
  then show ?case by simp
next
  case (Cons c cs)
  show ?case
  proof (cases "py_getitem c ''name''")
    case (Inl e)
    with Cons.prems show ?thesis by simp
  next
    case (Inr name)
    show ?thesis
    proof (cases "hashable name")
      case False
      with Inr Cons.prems show ?thesis by simp
    next
      case True
      have "\<forall>x\<in>set (dict_set acc name c). has_id (snd x)"
        using dict_set_entries[of acc name c] Cons.prems by fastforce
      then have "\<forall>x\<in>set (index_collections cs (dict_set acc name c)). has_id (snd x)"
        using Cons.prems(2) by (intro Cons.IH) simp_all
      with Inr True show ?thesis by simp
    qed
  qed
qed

lemma service_lists:
  assumes "\<forall>q\<in>set down. is_upload q"
  shows "\<forall>x\<in>set (fst (get_remote_collections (service_tr down) w)). has_id (snd x)"
proof -
  let ?req = "(GET, Knowledge, NoBody)"
  have "service_tr down ?req (remote w) = serve ?req (remote w)"
    using assms by (rule service_tr_serves) simp
  then have "fst (get_remote_collections (service_tr down) w)
      = index_collections (map coll_json (colls (remote w))) []"
    by (simp add: get_remote_collections_def get_knowledge_collections_def make_request_def
        list_or_empty_ok)
  moreover have "\<forall>x\<in>set (index_collections (map coll_json (colls (remote w))) []). has_id (snd x)"
    by (rule index_collections_values) (simp_all add: has_id_coll_json)
  ultimately show ?thesis by simp
qed

theorem upload_failure_does_not_stop_sync_witness:
  "\<exists>reqs w'. main demo_sha256 (service_tr resume_down) kb_env (Some demo_config) ''/kb''
                 (Some (Dir True two_collections)) empty_service = (0, w')
       \<and> log w' = reqs
       \<and> filter is_upload reqs
           = [upload_request ''/kb/career-data/resume.pdf'',
              upload_request ''/kb/career-data/notes.txt'',
              upload_request ''/kb/other/b.txt'']"
proof -
  have up: "\<forall>q\<in>set resume_down. is_upload q" by (simp add: resume_down_def)
  have cfg: "client_init demo_config = Inr ()" by code_simp
  have scan: "get_local_files demo_sha256 ''/kb'' (Dir True two_collections)
                = Inr two_collections_scan"
    by code_simp
  have cr: "\<forall>name d w. has_id (fst (create_knowledge_collection (service_tr resume_down) name d w))"
    using service_creates[OF up] by blast
  have det: "\<forall>cid w. detail_ok (fst (get_knowledge_collection (service_tr resume_down) cid w))"
    using service_details[OF up] by blast
  have lst: "\<forall>w. \<forall>x\<in>set (fst (get_remote_collections (service_tr resume_down) w)). has_id (snd x)"
    using service_lists[OF up] by blast
  have ups: "all_uploads kb_env (fst (get_remote_files (service_tr resume_down) empty_service))
               two_collections_scan two_collections
             = [upload_request ''/kb/career-data/resume.pdf'',
                upload_request ''/kb/career-data/notes.txt'',
                upload_request ''/kb/other/b.txt'']"
    by code_simp
  have e: "log empty_service = []" by (simp add: empty_service_def)
  from conjunct1 [OF upload_failure_does_not_stop_sync [OF cfg scan cr det lst,
        of kb_env empty_service]]
  obtain reqs w' where
    "main demo_sha256 (service_tr resume_down) kb_env (Some demo_config) ''/kb''
        (Some (Dir True two_collections)) empty_service = (0, w')"
    "log w' = log empty_service @ reqs"
    "filter is_upload reqs
       = all_uploads kb_env (fst (get_remote_files (service_tr resume_down) empty_service))
           two_collections_scan two_collections"
    by blast
  then show ?thesis unfolding ups e by simp
qed

subsection \<open>A second run\<close>

lemma created_name_create [simp]: "created_name (create_request name d) = Some (JStr name)"
  by (simp add: create_request_def)

lemma uploaded_path_upload [simp]: "uploaded_path (upload_request p) = Some p"
  by (simp add: upload_request_def)

lemma index_files_step:
  "index_files (v # rest) acc = Inr d \<Longrightarrow>
   index_files rest acc = Inr d
   \<or> (\<exists>fl file_id. v = JObj fl \<and> truthy file_id
         \<and> index_files rest (dict_set acc file_id fl) = Inr d)"
proof (cases v)
  case (JObj fl)
  assume a: "index_files (v # rest) acc = Inr d"
  show ?thesis
  proof (cases "map_of fl ''id''")
    case None
    with a JObj show ?thesis by simp
  next
    case (Some file_id)
    show ?thesis
    proof (cases "truthy file_id")
      case False
      with a JObj Some show ?thesis by simp
    next
      case True
      with a JObj Some have "hashable file_id" by (cases "hashable file_id") simp_all
      with a JObj Some True have "index_files rest (dict_set acc file_id fl) = Inr d" by simp
      with JObj True show ?thesis by blast
    qed
  qed
qed simp_all

lemma index_files_truthy:
  "index_files items acc = Inr d \<Longrightarrow> \<forall>x\<in>set acc. truthy (fst x) \<Longrightarrow> \<forall>x\<in>set d. truthy (fst x)"
proof (induction items arbitrary: acc)
  case Nil
  then show ?case by simp
next
  case (Cons v rest)
  from index_files_step[OF Cons.prems(1)] show ?case
  proof
    assume "index_files rest acc = Inr d"
    then show ?thesis using Cons.prems(2) by (rule Cons.IH)
  next
    assume "\<exists>fl file_id. v = JObj fl \<and> truthy file_id
         \<and> index_files rest (dict_set acc file_id fl) = Inr d"
    then obtain fl file_id where t: "truthy file_id"
      and r: "index_files rest (dict_set acc file_id fl) = Inr d" by blast
    have "\<forall>x\<in>set (dict_set acc file_id fl). truthy (fst x)"
    proof
      fix x assume "x \<in> set (dict_set acc file_id fl)"
      then have "x = (file_id, fl) \<or> x \<in> set acc"
        using dict_set_entries[of acc file_id fl] by blast
      then show "truthy (fst x)" using t Cons.prems(2) by auto
    qed
    with r show ?thesis by (rule Cons.IH)
  qed
qed

lemma get_remote_files_truthy:
  assumes "get_remote_files tr w = (rf, w')"
  shows "\<forall>x\<in>set rf. truthy (fst x)"
proof -
  obtain files w0 where g: "get_files tr w = (files, w0)" by (cases "get_files tr w")
  show ?thesis
  proof (cases "py_iter files")
    case (Inl e)
    with assms g show ?thesis by (auto simp: get_remote_files_def)
  next
    case (Inr items)
    show ?thesis
    proof (cases "index_files items []")
      case (Inl e)
      with assms g Inr show ?thesis by (auto simp: get_remote_files_def)
    next
      case d: (Inr d)
      with assms g Inr have "rf = d" by (auto simp: get_remote_files_def)
      with index_files_truthy[OF d] show ?thesis by simp
    qed
  qed
qed

lemma creations_empty:
  assumes "\<forall>x\<in>set items. is_dir (snd x) \<longrightarrow> JStr (prettify_name (fst x)) \<in> set keys"
  shows "creations keys items = []"
proof -
  have "set (map fst (creations keys items)) = {}"
    unfolding creations_names using assms by fastforce
  then show ?thesis by simp
qed

lemma all_uploads_subset:
  assumes "x \<in> set items" and "is_dir (snd x)"
    and "y \<in> set (collection_local_files (fst x) lf)"
  shows "set (uploads env (sync_arg rf (path (snd y)))) \<subseteq> set (all_uploads env rf lf items)"
proof -
  obtain n item where x: "x = (n, item)" by (cases x)
  obtain rel fi where y: "y = (rel, fi)" by (cases y)
  have "set (uploads env (sync_arg rf (path fi)))
          \<subseteq> set (selected_uploads env rf (collection_local_files n lf))"
    using assms(3) x y unfolding selected_uploads_def by fastforce
  moreover have "set (selected_uploads env rf (collection_local_files n lf))
          \<subseteq> set (all_uploads env rf lf items)"
    using assms(1,2) x unfolding all_uploads_def by fastforce
  ultimately show ?thesis using y by simp
qed

lemma all_uploads_empty:
  assumes "\<forall>x\<in>set items. is_dir (snd x) \<longrightarrow>
             (\<forall>y\<in>set (collection_local_files (fst x) lf).
                uploads env (sync_arg rf (path (snd y))) = [])"
  shows "all_uploads env rf lf items = []"
proof -
  have sel: "selected_uploads env rf (collection_local_files n lf) = []"
    if "(n, item) \<in> set items" "is_dir item" for n item
  proof -
    have "\<forall>y\<in>set (collection_local_files n lf). uploads env (sync_arg rf (path (snd y))) = []"
      using assms that by fastforce
    then show ?thesis unfolding selected_uploads_def by (auto simp: case_prod_unfold)
  qed
  show ?thesis unfolding all_uploads_def using sel by (auto simp: case_prod_unfold)
qed

lemma sync_arg_no_match: "\<not> has_match rf (basename p) \<Longrightarrow> sync_arg rf p = JStr p"
proof -
  assume "\<not> has_match rf (basename p)"
  then have "find (name_matches (basename p)) rf = None" by (simp only: has_match_def not_not)
  then show ?thesis by (simp add: sync_arg_def existing_file_id_def)
qed

lemma sync_arg_match:
  assumes "has_match rf (basename p)" and "\<forall>x\<in>set rf. truthy (fst x)"
  shows "\<exists>x\<in>set rf. sync_arg rf p = fst x"
proof -
  from assms(1) obtain item where f: "find (name_matches (basename p)) rf = Some item"
    by (auto simp: has_match_def)
  then have m: "item \<in> set rf" by (auto simp: find_Some_iff)
  with assms(2) have "truthy (fst item)" by blast
  with f have "sync_arg rf p = fst item" by (simp add: sync_arg_def existing_file_id_def)
  with m show ?thesis by blast
qed

lemma uploads_of_remote_id: "\<not> is_local_file env x \<Longrightarrow> uploads env x = []"
  by (simp add: uploads_def)

lemma uploads_of_path: "uploads env (JStr p) \<noteq> [] \<Longrightarrow> uploads env (JStr p) = [upload_request p]"
  by (simp add: uploads_def path_of_def split: if_splits)

lemma collection_local_files_subset: "set (collection_local_files d lf) \<subseteq> set lf"
  by (auto simp: collection_local_files_def)

text \<open>
  Claim C4. A first run on a local tree completes. A second run on the same tree starts
  from a snapshot that reflects the first: the collections that were listed or created
  are listed, the names of the local files that had a remote match or were uploaded have
  a remote match, and no remote id is the path of a local file. When the listed
  collections carry ids and the detail requests are answered, the second run completes
  without an exception, sends no create request and no upload; what it sends after the
  two listings are detail requests and attaches by id.
\<close>

theorem second_run_creates_and_uploads_nothing:
  assumes scan: "get_local_files sha256 base_dir (Dir True items) = Inr lf"
    and run1: "sync_knowledge sha256 tr env base_dir (Dir True items) w1 = (Inr (), w1')"
    and files1: "get_remote_files tr w1 = (rf1, wa)"
    and colls1: "get_remote_collections tr wa = (rc1, wb)"
    and files2: "get_remote_files tr w2 = (rf2, wc)"
    and colls2: "get_remote_collections tr wc = (rc2, wd)"
    and refl: "reflects lf (log w1') rf1 rc1 rf2 rc2"
    and ids: "\<forall>x\<in>set rf2. \<not> is_local_file env (fst x)"
    and idx: "\<forall>x\<in>set rc2. has_id (snd x)"
    and det: "\<forall>cid w. detail_ok (fst (get_knowledge_collection tr cid w))"
  shows "\<exists>reqs w2'. sync_knowledge sha256 tr env base_dir (Dir True items) w2 = (Inr (), w2')
           \<and> log w2' = log w2 @ reqs
           \<and> filter is_create reqs = [] \<and> filter is_upload reqs = []"
proof -
  \<comment> \<open>the first run\<close>
  have si1: "sync_items tr env lf rf1 items rc1 wb = (Inr (), w1')"
    using run1 scan files1 colls1 by (simp add: sync_knowledge_def)
  obtain reqs1 where r1: "log w1' = log wb @ reqs1"
    "filter is_create reqs1 = creates (map fst rc1) items"
    "filter is_upload reqs1 = all_uploads env rf1 lf items"
    using sync_items_log[OF si1, of "map fst rc1"] by auto
  have sent_creates: "set (creates (map fst rc1) items) \<subseteq> set (log w1')"
  proof -
    have "set (filter is_create reqs1) \<subseteq> set reqs1" by (rule filter_is_subset)
    with r1(1,2) show ?thesis by auto
  qed
  have sent_uploads: "set (all_uploads env rf1 lf items) \<subseteq> set (log w1')"
  proof -
    have "set (filter is_upload reqs1) \<subseteq> set reqs1" by (rule filter_is_subset)
    with r1(1,3) show ?thesis by auto
  qed
  \<comment> \<open>what the second snapshot holds\<close>
  from refl have kept: "\<forall>k\<in>fst ` set rc1. k \<in> fst ` set rc2"
    and created: "\<forall>q\<in>set (log w1'). \<forall>name. created_name q = Some name \<longrightarrow> name \<in> fst ` set rc2"
    and matched: "\<forall>y\<in>set lf. has_match rf1 (basename (path (snd y)))
                     \<longrightarrow> has_match rf2 (basename (path (snd y)))"
    and uploaded: "\<forall>q\<in>set (log w1'). \<forall>p. uploaded_path q = Some p
                     \<longrightarrow> has_match rf2 (basename p)"
    by (auto simp: reflects_def list_all_iff split: option.splits)
  have truthy2: "\<forall>x\<in>set rf2. truthy (fst x)" using files2 by (rule get_remote_files_truthy)
  have names: "\<forall>x\<in>set items. is_dir (snd x) \<longrightarrow> JStr (prettify_name (fst x)) \<in> fst ` set rc2"
  proof (intro ballI impI)
    fix x assume x: "x \<in> set items" "is_dir (snd x)"
    let ?name = "prettify_name (fst x)"
    show "JStr ?name \<in> fst ` set rc2"
    proof (cases "JStr ?name \<in> fst ` set rc1")
      case True
      with kept show ?thesis by blast
    next
      case False
      then have "?name \<in> {prettify_name n |n item. (n, item) \<in> set items \<and> is_dir item
                                  \<and> JStr (prettify_name n) \<notin> set (map fst rc1)}"
        using x by (cases x) auto
      then have "?name \<in> set (map fst (creations (map fst rc1) items))"
        by (simp only: creations_names)
      then obtain d where "(?name, d) \<in> set (creations (map fst rc1) items)" by auto
      then have "create_request ?name (auto_description d) \<in> set (creates (map fst rc1) items)"
        unfolding creates_def by force
      with sent_creates have "create_request ?name (auto_description d) \<in> set (log w1')" by blast
      with created show ?thesis by (metis created_name_create)
    qed
  qed
  \<comment> \<open>the second run completes\<close>
  have names': "\<forall>x\<in>set items. is_dir (snd x) \<longrightarrow>
           JStr (prettify_name (fst x)) \<in> fst ` set rc2
           \<or> (\<forall>d w. has_id (fst (create_knowledge_collection tr (prettify_name (fst x)) d w)))"
    using names by blast
  have "fst (sync_items tr env lf rf2 items rc2 wd) = Inr ()"
    using idx names' det by (rule sync_items_completes)
  then obtain w2' where si2: "sync_items tr env lf rf2 items rc2 wd = (Inr (), w2')"
    by (metis prod.collapse)
  obtain reqs2 where r2: "log w2' = log wd @ reqs2"
    "filter is_create reqs2 = creates (map fst rc2) items"
    "filter is_upload reqs2 = all_uploads env rf2 lf items"
    using sync_items_log[OF si2, of "map fst rc2"] by auto
  \<comment> \<open>it creates nothing\<close>
  have "creations (map fst rc2) items = []"
    using names by (intro creations_empty) simp
  then have no_creates: "filter is_create reqs2 = []" using r2(2) by (simp add: creates_def)
  \<comment> \<open>it uploads nothing\<close>
  have "all_uploads env rf2 lf items = []"
  proof (rule all_uploads_empty, intro ballI impI)
    fix x y assume x: "x \<in> set items" "is_dir (snd x)"
      and y: "y \<in> set (collection_local_files (fst x) lf)"
    let ?p = "path (snd y)"
    have ylf: "y \<in> set lf" using y collection_local_files_subset by blast
    show "uploads env (sync_arg rf2 ?p) = []"
    proof (cases "has_match rf2 (basename ?p)")
      case True
      then obtain z where "z \<in> set rf2" "sync_arg rf2 ?p = fst z"
        using sync_arg_match[OF _ truthy2] by blast
      with ids show ?thesis by (simp add: uploads_of_remote_id)
    next
      case False
      then have a2: "sync_arg rf2 ?p = JStr ?p" by (rule sync_arg_no_match)
      from False matched ylf have "\<not> has_match rf1 (basename ?p)" by blast
      then have a1: "sync_arg rf1 ?p = JStr ?p" by (rule sync_arg_no_match)
      have "uploads env (JStr ?p) = []"
      proof (rule ccontr)
        assume "uploads env (JStr ?p) \<noteq> []"
        then have "uploads env (sync_arg rf1 ?p) = [upload_request ?p]"
          using a1 uploads_of_path by simp
        then have "upload_request ?p \<in> set (all_uploads env rf1 lf items)"
          using all_uploads_subset[OF x y, of env rf1] by simp
        with sent_uploads have "upload_request ?p \<in> set (log w1')" by blast
        with uploaded have "has_match rf2 (basename ?p)" by (metis uploaded_path_upload)
        with False show False by simp
      qed
      with a2 show ?thesis by simp
    qed
  qed
  then have no_uploads: "filter is_upload reqs2 = []" using r2(3) by simp
  \<comment> \<open>the whole second run\<close>
  have lc: "log wc = log w2 @ [(GET, Files, NoBody)]" using files2 by (rule get_remote_files_log)
  have ld: "log wd = log wc @ [(GET, Knowledge, NoBody)]"
    using colls2 by (rule get_remote_collections_log)
  let ?all = "[(GET, Files, NoBody), (GET, Knowledge, NoBody)] @ reqs2"
  have 1: "sync_knowledge sha256 tr env base_dir (Dir True items) w2 = (Inr (), w2')"
    using scan files2 colls2 si2 by (simp add: sync_knowledge_def)
  have 2: "log w2' = log w2 @ ?all" using lc ld r2(1) by simp
  have 3: "filter is_create ?all = []" using no_creates by simp
  have 4: "filter is_upload ?all = []" using no_uploads by simp
  show ?thesis using 1 2 3 4 by blast
qed

theorem second_run_creates_and_uploads_nothing_witness:
  "\<exists>reqs w2'. sync_knowledge demo_sha256 (service_tr []) kb_env ''/kb'' (Dir True two_collections)
                  second_run_start = (Inr (), w2')
       \<and> log w2' = reqs \<and> filter is_create reqs = [] \<and> filter is_upload reqs = []"
proof -
  let ?tr = "service_tr [] :: service transport"
  let ?f1 = "get_remote_files ?tr empty_service"
  let ?c1 = "get_remote_collections ?tr (snd ?f1)"
  let ?f2 = "get_remote_files ?tr second_run_start"
  let ?c2 = "get_remote_collections ?tr (snd ?f2)"
  have scan: "get_local_files demo_sha256 ''/kb'' (Dir True two_collections)
                = Inr two_collections_scan"
    by code_simp
  have "fst (sync_knowledge demo_sha256 ?tr kb_env ''/kb'' (Dir True two_collections)
               empty_service) = Inr ()"
    by code_simp
  then have run1: "sync_knowledge demo_sha256 ?tr kb_env ''/kb'' (Dir True two_collections)
               empty_service = (Inr (), first_run_end)"
    unfolding first_run_end_def by (metis prod.collapse)
  have files1: "?f1 = (fst ?f1, snd ?f1)" by simp
  have colls1: "?c1 = (fst ?c1, snd ?c1)" by simp
  have files2: "?f2 = (fst ?f2, snd ?f2)" by simp
  have colls2: "?c2 = (fst ?c2, snd ?c2)" by simp
  have refl: "reflects two_collections_scan (log first_run_end) (fst ?f1) (fst ?c1) (fst ?f2) (fst ?c2)"
    by code_simp
  have ids: "\<forall>x\<in>set (fst ?f2). \<not> is_local_file kb_env (fst x)" by code_simp
  have up: "\<forall>q\<in>set ([] :: request list). is_upload q" by simp
  have idx: "\<forall>x\<in>set (fst ?c2). has_id (snd x)" using service_lists[OF up] by blast
  have det: "\<forall>cid w. detail_ok (fst (get_knowledge_collection ?tr cid w))"
    using service_details[OF up] by blast
  have e: "log second_run_start = []" by (simp add: second_run_start_def)
  from second_run_creates_and_uploads_nothing
    [OF scan run1 files1 colls1 files2 colls2 refl ids idx det]
  show ?thesis unfolding e by simp
qed

end
